theory Spec2Isabelle
  imports
    Complex_Main
    "HOL-Library.Char_ord"
    "HOL-Library.List_Lexorder"
    "HOL-Library.Product_Lexorder"
    "HOL-Library.Monad_Syntax"
    "HOL-Library.Multiset"
begin

section \<open>Restaurant reservation service\<close>

text \<open>
  A shallow embedding of the reservation routes (\<^verbatim>\<open>src/routes/reservations.js\<close>), the
  request schemas (\<^verbatim>\<open>src/validators/reservation.js\<close>) and the \<^verbatim>\<open>Reservation\<close>
  model.  Every handler is a function from the request and the store to a response and the
  store after the request.  The handlers' \<^verbatim>\<open>catch\<close> branch (status 500) is entered
  only when a store call throws; the store of this development is an in-memory list whose
  operations always succeed, so that branch has no counterpart here.
\<close>

subsection \<open>JavaScript strings and numbers, as far as the slot helper uses them\<close>

text \<open>
  \<^verbatim>\<open>Number(s)\<close> is embedded on the strings the slot pattern admits: the empty string is
  0 and a run of ASCII digits is its decimal value.  JavaScript reads further spellings as
  numbers (surrounding white space, signs, fractions, exponents, radix prefixes); none of
  them passes the \<^verbatim>\<open>HH:MM\<close> pattern of the create schema, and this embedding sends
  them to \<open>NaN\<close>.
\<close>

datatype jsnum = NaN | Num nat

definition digit_val :: "char \<Rightarrow> nat option" where
  "digit_val c = map_of (zip ''0123456789'' [0, 1, 2, 3, 4, 5, 6, 7, 8, 9]) c"

definition is_digit :: "char \<Rightarrow> bool" where
  "is_digit c = (digit_val c \<noteq> None)"

definition digit_char :: "nat \<Rightarrow> char" where
  "digit_char d = ''0123456789'' ! d"

fun decimal_value :: "nat \<Rightarrow> string \<Rightarrow> nat" where
  "decimal_value acc [] = acc"
| "decimal_value acc (c # cs) =
     decimal_value (10 * acc + (case digit_val c of Some d \<Rightarrow> d | None \<Rightarrow> 0)) cs"

definition Number :: "string \<Rightarrow> jsnum" where
  "Number s = (if list_all is_digit s then Num (decimal_value 0 s) else NaN)"

text \<open>\<^verbatim>\<open>String(n)\<close> of a non-negative integer: its decimal digits.\<close>

function String_nat :: "nat \<Rightarrow> string" where
  "String_nat n =
     (if n < 10 then [digit_char n] else String_nat (n div 10) @ [digit_char (n mod 10)])"
  by pat_completeness auto
termination
  by (relation "measure (\<lambda>n. n)") auto

definition String_int :: "int \<Rightarrow> string" where
  "String_int i = (if i < 0 then CHR ''-'' # String_nat (nat (- i)) else String_nat (nat i))"

definition String_num :: "jsnum \<Rightarrow> string" where
  "String_num x = (case x of NaN \<Rightarrow> ''NaN'' | Num n \<Rightarrow> String_nat n)"

definition padStart :: "nat \<Rightarrow> char \<Rightarrow> string \<Rightarrow> string" where
  "padStart n c s = replicate (n - length s) c @ s"

text \<open>\<^verbatim>\<open>s.split(sep)\<close> for a one-character separator: the pieces between separators.\<close>

fun split_str :: "char \<Rightarrow> string \<Rightarrow> string list" where
  "split_str sep [] = [[]]"
| "split_str sep (c # cs) =
     (if c = sep then [] # split_str sep cs
      else (case split_str sep cs of
              [] \<Rightarrow> [[c]]
            | p # ps \<Rightarrow> (c # p) # ps))"

subsection \<open>The slot helper\<close>

text \<open>
  \<^verbatim>\<open>
  function calculateEndTime(startTime) {
      const [hours, minutes] = startTime.split(':').map(Number);
      const endHours = (hours + 2) % 24;
      return `${String(endHours).padStart(2, '0')}:${String(minutes).padStart(2, '0')}`;
  }
  \<close>
  A missing array element is \<^verbatim>\<open>undefined\<close>: as \<open>hours\<close> it makes the sum
  \<open>NaN\<close>, as \<open>minutes\<close> it prints as \<^verbatim>\<open>undefined\<close>.  \<open>split\<close> never returns an
  empty array, so \<open>hours\<close> is always defined.
\<close>

definition calculateEndTime :: "string \<Rightarrow> string" where
  "calculateEndTime startTime =
     (let parts = map Number (split_str CHR '':'' startTime);
          hours = (case parts of [] \<Rightarrow> NaN | h # _ \<Rightarrow> h);
          minutes = (case parts of _ # m # _ \<Rightarrow> Some m | _ \<Rightarrow> None);
          endHours = (case hours of NaN \<Rightarrow> NaN | Num h \<Rightarrow> Num ((h + 2) mod 24))
      in padStart 2 CHR ''0'' (String_num endHours) @ '':'' @
         padStart 2 CHR ''0'' (case minutes of None \<Rightarrow> ''undefined'' | Some m \<Rightarrow> String_num m))"

text \<open>
  The pattern of the create schema,
  \<^verbatim>\<open>/^([01]\d|2[0-3]):([0-5]\d)$/\<close>.
\<close>

definition slot_time_pattern :: "string \<Rightarrow> bool" where
  "slot_time_pattern s =
     (case s of
        [a, b, c, d, e] \<Rightarrow>
          ((a \<in> set ''01'' \<and> is_digit b) \<or> (a = CHR ''2'' \<and> b \<in> set ''0123'')) \<and>
          c = CHR '':'' \<and> d \<in> set ''012345'' \<and> is_digit e
      | _ \<Rightarrow> False)"

text \<open>The time of day \<open>h:m\<close> written \<^verbatim>\<open>HH:MM\<close>, two digits each.\<close>

definition hhmm :: "nat \<Rightarrow> nat \<Rightarrow> string" where
  "hhmm h m =
     [digit_char (h div 10), digit_char (h mod 10), CHR '':'',
      digit_char (m div 10), digit_char (m mod 10)]"

subsection \<open>Time\<close>

text \<open>
  An instant is what \<^verbatim>\<open>Date.getTime()\<close> returns: milliseconds since 1970-01-01T00:00Z.
  A calendar date (the \<^verbatim>\<open>DATEONLY\<close> column, rendered \<^verbatim>\<open>YYYY-MM-DD\<close>) is
  represented by its day number, the count of days since 1970-01-01.  The server's local
  time is a fixed offset from UTC, \<open>tz_offset_ms\<close> (0 when the process runs in UTC).
\<close>

type_synonym instant = int
type_synonym day = int

record config =
  tz_offset_ms :: int
  isEmail :: "string \<Rightarrow> bool"

definition msPerDay :: int where
  "msPerDay = 24 * 60 * 60 * 1000"

text \<open>
  The calendar date an ISO date-only string \<^verbatim>\<open>YYYY-MM-DD\<close> denotes is parsed, by Joi
  and by \<^verbatim>\<open>Date\<close>, as midnight UTC of that day.
\<close>

definition utc_midnight :: "day \<Rightarrow> instant" where
  "utc_midnight d = d * msPerDay"

text \<open>
  Writing a \<^verbatim>\<open>Date\<close> to a \<^verbatim>\<open>DATEONLY\<close> attribute, or comparing one with it in a
  \<^verbatim>\<open>where\<close> clause, keeps the local calendar date of the instant.
\<close>

definition DATEONLY :: "config \<Rightarrow> instant \<Rightarrow> day" where
  "DATEONLY cfg t = (t + tz_offset_ms cfg) div msPerDay"

definition two_digits :: "char \<Rightarrow> char \<Rightarrow> nat option" where
  "two_digits a b =
     (case digit_val a of
        None \<Rightarrow> None
      | Some x \<Rightarrow> (case digit_val b of None \<Rightarrow> None | Some y \<Rightarrow> Some (10 * x + y)))"

text \<open>
  The time part of a date-time string, in milliseconds after midnight: \<^verbatim>\<open>HH:MM\<close> as the
  service writes it, or \<^verbatim>\<open>HH:MM:SS\<close> as a \<^verbatim>\<open>TIME\<close> column renders it, hours 00 to
  23.  \<open>None\<close> is JavaScript's Invalid Date.
\<close>

definition time_of_day_ms :: "string \<Rightarrow> int option" where
  "time_of_day_ms s =
     (case s of
        [a, b, c, d, e] \<Rightarrow>
          (if c = CHR '':'' then
             (case two_digits a b of
                None \<Rightarrow> None
              | Some h \<Rightarrow>
                  (case two_digits d e of
                     None \<Rightarrow> None
                   | Some m \<Rightarrow>
                       if h < 24 \<and> m < 60 then Some (int ((h * 60 + m) * 60000)) else None))
           else None)
      | [a, b, c, d, e, f, g, i] \<Rightarrow>
          (if c = CHR '':'' \<and> f = CHR '':'' then
             (case two_digits a b of
                None \<Rightarrow> None
              | Some h \<Rightarrow>
                  (case two_digits d e of
                     None \<Rightarrow> None
                   | Some m \<Rightarrow>
                       (case two_digits g i of
                          None \<Rightarrow> None
                        | Some sec \<Rightarrow>
                            if h < 24 \<and> m < 60 \<and> sec < 60
                            then Some (int (((h * 60 + m) * 60 + sec) * 1000)) else None)))
           else None)
      | _ \<Rightarrow> None)"

text \<open>
  \<^verbatim>\<open>new Date(`${reservation_date}T${slot_start_time}`)\<close>: a date-time string without an
  offset is read as local time.
\<close>

definition Date_local :: "config \<Rightarrow> day \<Rightarrow> string \<Rightarrow> instant option" where
  "Date_local cfg d t =
     (case time_of_day_ms t of
        None \<Rightarrow> None
      | Some ms \<Rightarrow> Some (d * msPerDay + ms - tz_offset_ms cfg))"

subsection \<open>The Reservation model and its store\<close>

text \<open>
  The columns of \<^verbatim>\<open>sequelize.define('Reservation', ...)\<close>.  The status column is a string
  (the model declares it \<^verbatim>\<open>STRING(20)\<close> under test and an enumeration otherwise), so that
  the two-valued status is something to prove.  The primary key \<^verbatim>\<open>id\<close> is \<open>id_pk\<close>
  here.
\<close>

record reservation =
  id_pk :: int
  table_id :: int
  customer_name :: string
  customer_email :: string
  customer_phone :: string
  guest_count :: int
  reservation_date :: day
  slot_start_time :: string
  slot_end_time :: string
  status :: string
  special_requests :: "string option"
  created_at :: instant
  updated_at :: instant

text \<open>The table: its rows in insertion order, and the auto-increment counter.\<close>

record store =
  rows :: "reservation list"
  next_id :: int

definition init_store :: store where
  "init_store = \<lparr>rows = [], next_id = 1\<rparr>"

definition findOne :: "(reservation \<Rightarrow> bool) \<Rightarrow> store \<Rightarrow> reservation option" where
  "findOne wh db = find wh (rows db)"

definition findAll :: "(reservation \<Rightarrow> bool) \<Rightarrow> store \<Rightarrow> reservation list" where
  "findAll wh db = filter wh (rows db)"

definition findByPk :: "store \<Rightarrow> int \<Rightarrow> reservation option" where
  "findByPk db i = find (\<lambda>r. id_pk r = i) (rows db)"

text \<open>
  \<^verbatim>\<open>findAndCountAll({ where, order: [['reservation_date','ASC'],['slot_start_time','ASC']],
  limit, offset })\<close>: the count is that of all matching rows, the rows are one page of them
  in the requested order.  Times of day written \<^verbatim>\<open>HH:MM\<close> are ordered as their strings.
\<close>

definition findAndCountAll ::
  "(reservation \<Rightarrow> bool) \<Rightarrow> int \<Rightarrow> int \<Rightarrow> store \<Rightarrow> reservation list \<times> int" where
  "findAndCountAll wh limit offset db =
     (let matching = filter wh (rows db);
          ordered = sort_key (\<lambda>r. (reservation_date r, slot_start_time r)) matching
      in (take (nat limit) (drop (nat offset) ordered), int (length matching)))"

text \<open>
  \<^verbatim>\<open>instance.save()\<close> after \<^verbatim>\<open>reservation.status = ...\<close>: an \<^verbatim>\<open>UPDATE\<close> of the
  changed column and of \<^verbatim>\<open>updated_at\<close> on the row with the instance's primary key.
\<close>

definition save :: "instant \<Rightarrow> reservation \<Rightarrow> store \<Rightarrow> reservation \<times> store" where
  "save t r db =
     (r\<lparr>updated_at := t\<rparr>,
      db\<lparr>rows := map (\<lambda>x. if id_pk x = id_pk r then x\<lparr>status := status r, updated_at := t\<rparr> else x)
                     (rows db)\<rparr>)"

subsection \<open>Request schemas\<close>

text \<open>
  A key of a request body or query string, after Joi's type coercion: absent, present with a
  value that cannot be read at the key's type (not an integer, not a string, not an ISO
  date), or present with a value of that type.  A date is carried as the instant Joi parsed
  it to.  The body and the query hold the keys of the schema only.
\<close>

datatype 'a field = Missing | Malformed | Value 'a

definition required :: "('a \<Rightarrow> bool) \<Rightarrow> 'a field \<Rightarrow> 'a option" where
  "required ok f = (case f of Value v \<Rightarrow> if ok v then Some v else None | _ \<Rightarrow> None)"

definition optional :: "('a \<Rightarrow> bool) \<Rightarrow> 'a field \<Rightarrow> 'a option option" where
  "optional ok f =
     (case f of
        Missing \<Rightarrow> Some None
      | Malformed \<Rightarrow> None
      | Value v \<Rightarrow> if ok v then Some (Some v) else None)"

definition with_default :: "'a \<Rightarrow> ('a \<Rightarrow> bool) \<Rightarrow> 'a field \<Rightarrow> 'a option" where
  "with_default d ok f =
     (case f of
        Missing \<Rightarrow> Some d
      | Malformed \<Rightarrow> None
      | Value v \<Rightarrow> if ok v then Some v else None)"

text \<open>\<^verbatim>\<open>Joi.string().max(500).allow('', null)\<close>, not required.\<close>

definition optional_nullable :: "(string \<Rightarrow> bool) \<Rightarrow> string option field \<Rightarrow> string option option" where
  "optional_nullable ok f =
     (case f of
        Missing \<Rightarrow> Some None
      | Malformed \<Rightarrow> None
      | Value None \<Rightarrow> Some None
      | Value (Some v) \<Rightarrow> if ok v then Some (Some v) else None)"

definition failed :: "string \<Rightarrow> 'a option \<Rightarrow> string list" where
  "failed key r = (case r of None \<Rightarrow> [key] | Some _ \<Rightarrow> [])"

record create_body =
  body_table_id :: "int field"
  body_customer_name :: "string field"
  body_customer_email :: "string field"
  body_customer_phone :: "string field"
  body_guest_count :: "int field"
  body_reservation_date :: "instant field"
  body_slot_start_time :: "string field"
  body_special_requests :: "string option field"

record create_value =
  v_table_id :: int
  v_customer_name :: string
  v_customer_email :: string
  v_customer_phone :: string
  v_guest_count :: int
  v_reservation_date :: instant
  v_slot_start_time :: string
  v_special_requests :: "string option"

text \<open>
  \<^verbatim>\<open>createReservationSchema.validate(req.body, { abortEarly: false })\<close> at the instant
  \<open>now\<close>.  \<^verbatim>\<open>Joi.date().min('now')\<close> compares the parsed date's time value with
  \<^verbatim>\<open>Date.now()\<close> by \<open>\<ge>\<close>.  The error value lists the keys that broke a rule, in the
  order of the schema; it stands for the messages of \<^verbatim>\<open>error.details\<close>.
\<close>

definition createReservationSchema ::
  "(string \<Rightarrow> bool) \<Rightarrow> instant \<Rightarrow> create_body \<Rightarrow> string list + create_value" where
  "createReservationSchema email now body =
     (let table_id' = required (\<lambda>n. 0 < n) (body_table_id body);
          customer_name' = required (\<lambda>s. 1 \<le> length s \<and> length s \<le> 100) (body_customer_name body);
          customer_email' = required (\<lambda>s. s \<noteq> [] \<and> email s) (body_customer_email body);
          customer_phone' = required (\<lambda>s. 7 \<le> length s \<and> length s \<le> 20) (body_customer_phone body);
          guest_count' = required (\<lambda>n. 1 \<le> n \<and> n \<le> 20) (body_guest_count body);
          reservation_date' = required (\<lambda>t. now \<le> t) (body_reservation_date body);
          slot_start_time' = required slot_time_pattern (body_slot_start_time body);
          special_requests' = optional_nullable (\<lambda>s. length s \<le> 500) (body_special_requests body);
          errors = failed ''table_id'' table_id' @ failed ''customer_name'' customer_name' @
                   failed ''customer_email'' customer_email' @
                   failed ''customer_phone'' customer_phone' @
                   failed ''guest_count'' guest_count' @
                   failed ''reservation_date'' reservation_date' @
                   failed ''slot_start_time'' slot_start_time' @
                   failed ''special_requests'' special_requests'
      in case do {
             t \<leftarrow> table_id'; n \<leftarrow> customer_name'; e \<leftarrow> customer_email'; p \<leftarrow> customer_phone';
             g \<leftarrow> guest_count'; d \<leftarrow> reservation_date'; s \<leftarrow> slot_start_time';
             q \<leftarrow> special_requests';
             Some \<lparr>v_table_id = t, v_customer_name = n, v_customer_email = e,
                   v_customer_phone = p, v_guest_count = g, v_reservation_date = d,
                   v_slot_start_time = s, v_special_requests = q\<rparr> }
         of Some v \<Rightarrow> Inr v
          | None \<Rightarrow> Inl errors)"

record list_query =
  query_date :: "instant field"
  query_table_id :: "int field"
  query_status :: "string field"
  query_page :: "int field"
  query_limit :: "int field"

record list_value =
  lv_date :: "instant option"
  lv_table_id :: "int option"
  lv_status :: "string option"
  lv_page :: int
  lv_limit :: int

text \<open>
  \<^verbatim>\<open>queryReservationsSchema.validate(req.query)\<close>: validation stops at the first key
  that breaks a rule.
\<close>

definition queryReservationsSchema :: "list_query \<Rightarrow> string list + list_value" where
  "queryReservationsSchema query =
     (let date' = optional (\<lambda>t. True) (query_date query);
          table_id' = optional (\<lambda>n. 0 < n) (query_table_id query);
          status' = optional (\<lambda>s. s = ''confirmed'' \<or> s = ''cancelled'') (query_status query);
          page' = with_default 1 (\<lambda>n. 1 \<le> n) (query_page query);
          limit' = with_default 20 (\<lambda>n. 1 \<le> n \<and> n \<le> 50) (query_limit query);
          errors = failed ''date'' date' @ failed ''table_id'' table_id' @
                   failed ''status'' status' @ failed ''page'' page' @ failed ''limit'' limit'
      in case do {
             d \<leftarrow> date'; t \<leftarrow> table_id'; s \<leftarrow> status'; p \<leftarrow> page'; l \<leftarrow> limit';
             Some \<lparr>lv_date = d, lv_table_id = t, lv_status = s, lv_page = p, lv_limit = l\<rparr> }
         of Some v \<Rightarrow> Inr v
          | None \<Rightarrow> Inl (take 1 errors))"

subsection \<open>The table service\<close>

record table_info =
  table_pk :: int
  seating_capacity :: int
  is_active :: bool

text \<open>
  What one \<^verbatim>\<open>fetch\<close> of \<^verbatim>\<open>/api/tables/{id}\<close> does: it rejects, or it resolves to a
  response with its \<^verbatim>\<open>ok\<close> flag and the outcome of \<^verbatim>\<open>response.json()\<close>, which throws
  or yields a document whose \<^verbatim>\<open>table\<close> member is a table or is not there.
\<close>

datatype json_body = Json_throws | Json_data "table_info option"

datatype fetch_outcome = Fetch_rejects | Fetch_resolves bool json_body

text \<open>The surroundings of one request: the clock and the table service.\<close>

record env =
  now :: instant
  table_service :: "int \<Rightarrow> fetch_outcome"

definition fetchTableInfo :: "env \<Rightarrow> int \<Rightarrow> table_info option" where
  "fetchTableInfo e tableId =
     (case table_service e tableId of
        Fetch_rejects \<Rightarrow> None
      | Fetch_resolves ok body \<Rightarrow>
          if \<not> ok then None
          else (case body of Json_throws \<Rightarrow> None | Json_data t \<Rightarrow> t))"

subsection \<open>Responses\<close>

record slot =
  start_time :: string
  end_time :: string
  available :: bool

datatype table_view = Table_info table_info | Table_placeholder int string

datatype payload =
    Errors "string list"
  | Error string
  | Message_reservation string reservation
  | Reservation_with_table reservation table_view
  | Reservation_page "reservation list" int int int
  | Availability int day "slot list"

type_synonym response = "nat \<times> payload"

subsection \<open>The route handlers\<close>

text \<open>
  \<^verbatim>\<open>Reservation.create({ ...value, slot_end_time, status })\<close>: the row gets the next
  primary key and both timestamps.
\<close>

definition Reservation_create ::
  "config \<Rightarrow> instant \<Rightarrow> create_value \<Rightarrow> string \<Rightarrow> string \<Rightarrow> store \<Rightarrow> reservation \<times> store" where
  "Reservation_create cfg t v slotEndTime st db =
     (let r = \<lparr>id_pk = next_id db,
                table_id = v_table_id v,
                customer_name = v_customer_name v,
                customer_email = v_customer_email v,
                customer_phone = v_customer_phone v,
                guest_count = v_guest_count v,
                reservation_date = DATEONLY cfg (v_reservation_date v),
                slot_start_time = v_slot_start_time v,
                slot_end_time = slotEndTime,
                status = st,
                special_requests = v_special_requests v,
                created_at = t,
                updated_at = t\<rparr>
      in (r, \<lparr>rows = rows db @ [r], next_id = next_id db + 1\<rparr>))"

text \<open>\<^verbatim>\<open>router.post('/')\<close>\<close>

definition create_reservation ::
  "config \<Rightarrow> env \<Rightarrow> create_body \<Rightarrow> store \<Rightarrow> response \<times> store" where
  "create_reservation cfg e body db =
     (case createReservationSchema (isEmail cfg) (now e) body of
        Inl errors \<Rightarrow> ((400, Errors errors), db)
      | Inr v \<Rightarrow>
          (case fetchTableInfo e (v_table_id v) of
             None \<Rightarrow>
               ((400, Error (''Table '' @ String_int (v_table_id v) @ '' not found or unavailable'')),
                db)
           | Some t \<Rightarrow>
               if \<not> is_active t then
                 ((400, Error (''Table '' @ String_int (v_table_id v) @ '' is not active'')), db)
               else if v_guest_count v > seating_capacity t then
                 ((400, Error (''Guest count ('' @ String_int (v_guest_count v) @
                               '') exceeds table capacity ('' @
                               String_int (seating_capacity t) @ '')'')), db)
               else
                 (let slotEndTime = calculateEndTime (v_slot_start_time v);
                      existingReservation =
                        findOne (\<lambda>r. table_id r = v_table_id v \<and>
                                     reservation_date r = DATEONLY cfg (v_reservation_date v) \<and>
                                     slot_start_time r = v_slot_start_time v \<and>
                                     status r = ''confirmed'') db
                  in case existingReservation of
                       Some _ \<Rightarrow>
                         ((409, Error ''This table is already booked for the requested date and time slot''),
                          db)
                     | None \<Rightarrow>
                         (let (r, db') = Reservation_create cfg (now e) v slotEndTime ''confirmed'' db
                          in ((201, Message_reservation ''Reservation created successfully'' r),
                              db')))))"

text \<open>\<^verbatim>\<open>Math.ceil(count / limit)\<close>\<close>

definition Math_ceil_div :: "int \<Rightarrow> int \<Rightarrow> int" where
  "Math_ceil_div count' limit = \<lceil>rat_of_int count' / rat_of_int limit\<rceil>"

text \<open>\<^verbatim>\<open>router.get('/')\<close>\<close>

definition list_reservations :: "config \<Rightarrow> list_query \<Rightarrow> store \<Rightarrow> response" where
  "list_reservations cfg query db =
     (case queryReservationsSchema query of
        Inl errors \<Rightarrow> (400, Errors errors)
      | Inr v \<Rightarrow>
          (let wh = (\<lambda>r. (case lv_date v of None \<Rightarrow> True
                                            | Some d \<Rightarrow> reservation_date r = DATEONLY cfg d) \<and>
                          (case lv_table_id v of None \<Rightarrow> True | Some t \<Rightarrow> table_id r = t) \<and>
                          (case lv_status v of None \<Rightarrow> True | Some s \<Rightarrow> status r = s));
               offset = (lv_page v - 1) * lv_limit v;
               (page_rows, count') = findAndCountAll wh (lv_limit v) offset db
           in (200, Reservation_page page_rows count' (lv_page v)
                      (Math_ceil_div count' (lv_limit v)))))"

text \<open>\<^verbatim>\<open>router.get('/:id')\<close>, for a path parameter that denotes the integer \<open>i\<close>.\<close>

definition get_reservation :: "env \<Rightarrow> int \<Rightarrow> store \<Rightarrow> response" where
  "get_reservation e i db =
     (case findByPk db i of
        None \<Rightarrow> (404, Error ''Reservation not found'')
      | Some r \<Rightarrow>
          (200, Reservation_with_table r
                  (case fetchTableInfo e (table_id r) of
                     Some t \<Rightarrow> Table_info t
                   | None \<Rightarrow> Table_placeholder (table_id r) ''Table details unavailable'')))"

text \<open>
  \<^verbatim>\<open>router.patch('/:id/cancel')\<close>.  \<open>diffHours\<close> is \<open>None\<close> when the date is invalid
  (\<open>NaN\<close>), and then \<^verbatim>\<open>diffHours < 1\<close> is false.  The quotient is taken exactly; the
  rounding of the floating-point division does not move a millisecond count across 1.
\<close>

definition cancel_reservation :: "config \<Rightarrow> env \<Rightarrow> int \<Rightarrow> store \<Rightarrow> response \<times> store" where
  "cancel_reservation cfg e i db =
     (case findByPk db i of
        None \<Rightarrow> ((404, Error ''Reservation not found''), db)
      | Some reservation \<Rightarrow>
          if status reservation = ''cancelled'' then
            ((400, Error ''Reservation is already cancelled''), db)
          else
            (let reservationDateTime =
                   Date_local cfg (reservation_date reservation) (slot_start_time reservation);
                 diffMs = map_option (\<lambda>t. t - now e) reservationDateTime;
                 diffHours = map_option (\<lambda>d. rat_of_int d / (1000 * 60 * 60)) diffMs
             in if (case diffHours of None \<Rightarrow> False | Some h \<Rightarrow> h < 1) then
                  ((400, Error ''Reservations can only be cancelled at least 1 hour before the reserved time''),
                   db)
                else
                  (let (saved, db') = save (now e) (reservation\<lparr>status := ''cancelled''\<rparr>) db
                   in ((200, Message_reservation ''Reservation cancelled successfully'' saved),
                       db'))))"

definition allSlots :: "string list" where
  "allSlots = [''10:00'', ''12:00'', ''14:00'', ''16:00'', ''18:00'', ''20:00'']"

text \<open>\<^verbatim>\<open>s.substring(a, b)\<close>\<close>

definition substring :: "nat \<Rightarrow> nat \<Rightarrow> string \<Rightarrow> string" where
  "substring a b s = take (max a b - min a b) (drop (min a b) s)"

text \<open>
  \<^verbatim>\<open>router.get('/tables/:tableId/availability')\<close>, for a path parameter that denotes the
  integer \<open>tableId\<close>.  The \<open>date\<close> query parameter is \<open>None\<close> when it is absent or empty
  and otherwise the calendar date its string denotes.
\<close>

definition get_availability :: "int \<Rightarrow> day option \<Rightarrow> store \<Rightarrow> response" where
  "get_availability tableId date db =
     (case date of
        None \<Rightarrow> (400, Error ''date query parameter is required'')
      | Some d \<Rightarrow>
          (let bookedReservations =
                 findAll (\<lambda>r. table_id r = tableId \<and> reservation_date r = d \<and>
                              status r = ''confirmed'') db;
               bookedSlotTimes = map (\<lambda>r. substring 0 5 (slot_start_time r)) bookedReservations;
               slots = map (\<lambda>slot. \<lparr>start_time = slot,
                                     end_time = calculateEndTime slot,
                                     available = (slot \<notin> set bookedSlotTimes)\<rparr>) allSlots
           in (200, Availability tableId d slots)))"

subsection \<open>Sequential execution\<close>

datatype request =
    Create env create_body
  | List_all list_query
  | Get env int
  | Cancel env int
  | Check_availability int "day option"

definition handle :: "config \<Rightarrow> request \<Rightarrow> store \<Rightarrow> response \<times> store" where
  "handle cfg req db =
     (case req of
        Create e body \<Rightarrow> create_reservation cfg e body db
      | List_all query \<Rightarrow> (list_reservations cfg query db, db)
      | Get e i \<Rightarrow> (get_reservation e i db, db)
      | Cancel e i \<Rightarrow> cancel_reservation cfg e i db
      | Check_availability tableId date \<Rightarrow> (get_availability tableId date db, db))"

text \<open>The store after a sequence of requests, each handled to completion before the next.\<close>

fun exec :: "config \<Rightarrow> request list \<Rightarrow> store \<Rightarrow> store" where
  "exec cfg [] db = db"
| "exec cfg (req # reqs) db = exec cfg reqs (snd (handle cfg req db))"

subsection \<open>Example data\<close>

text \<open>
  The request of the repository's tests: table 1 with four seats, three guests at 18:00 on
  2026-12-25 (day 20812), sent at noon UTC of 2026-03-01 (day 20513) to a server running in
  UTC.
\<close>

definition cfg0 :: config where
  "cfg0 = \<lparr>tz_offset_ms = 0, isEmail = (\<lambda>s. CHR ''@'' \<in> set s)\<rparr>"

definition now0 :: instant where
  "now0 = 1772366400000"

definition table4 :: table_info where
  "table4 = \<lparr>table_pk = 1, seating_capacity = 4, is_active = True\<rparr>"

definition env_at :: "instant \<Rightarrow> env" where
  "env_at t =
     \<lparr>now = t,
      table_service = (\<lambda>i. if i = 1 then Fetch_resolves True (Json_data (Some table4))
                            else Fetch_resolves False (Json_data None))\<rparr>"

definition body0 :: create_body where
  "body0 =
     \<lparr>body_table_id = Value 1,
      body_customer_name = Value ''John Doe'',
      body_customer_email = Value ''john@example.com'',
      body_customer_phone = Value ''+1234567890'',
      body_guest_count = Value 3,
      body_reservation_date = Value 1798156800000,
      body_slot_start_time = Value ''18:00'',
      body_special_requests = Value (Some ''Window seat'')\<rparr>"

text \<open>The row that request creates in the empty store, and the store holding it.\<close>

definition row0 :: reservation where
  "row0 =
     \<lparr>id_pk = 1, table_id = 1, customer_name = ''John Doe'',
      customer_email = ''john@example.com'', customer_phone = ''+1234567890'',
      guest_count = 3, reservation_date = 20812, slot_start_time = ''18:00'',
      slot_end_time = ''20:00'', status = ''confirmed'',
      special_requests = Some ''Window seat'', created_at = 1772366400000,
      updated_at = 1772366400000\<rparr>"

definition db1 :: store where
  "db1 = \<lparr>rows = [row0], next_id = 2\<rparr>"

text \<open>A store with that row and a cancelled one for 20:00 of the same day.\<close>

definition db2 :: store where
  "db2 =
     \<lparr>rows = [row0,
              row0\<lparr>id_pk := 2, slot_start_time := ''20:00'', slot_end_time := ''22:00'',
                    status := ''cancelled''\<rparr>],
      next_id = 3\<rparr>"

text \<open>The surroundings of a request sent while the table service cannot be reached.\<close>

definition env_down :: "instant \<Rightarrow> env" where
  "env_down t = \<lparr>now = t, table_service = (\<lambda>i. Fetch_rejects)\<rparr>"

text \<open>
  A store whose rows were inserted against the order of their start times, and the list
  request without any parameter.
\<close>

definition db3 :: store where
  "db3 =
     \<lparr>rows = [row0\<lparr>slot_start_time := ''20:00'', slot_end_time := ''22:00''\<rparr>,
              row0\<lparr>id_pk := 2\<rparr>],
      next_id = 3\<rparr>"

definition query0 :: list_query where
  "query0 =
     \<lparr>query_date = Missing, query_table_id = Missing, query_status = Missing,
      query_page = Missing, query_limit = Missing\<rparr>"

subsection \<open>Invariants of the store\<close>

text \<open>
  What a request may do to a row that is already stored: leave every column but the status
  and the update timestamp, and either keep the status or take it from \<open>confirmed\<close> to
  \<open>cancelled\<close>.
\<close>

definition lifecycle_step :: "reservation \<Rightarrow> reservation \<Rightarrow> bool" where
  "lifecycle_step r r' \<longleftrightarrow>
     r'\<lparr>status := status r, updated_at := updated_at r\<rparr> = r \<and>
     (status r' = status r \<or> (status r = ''confirmed'' \<and> status r' = ''cancelled''))"

text \<open>A later store keeps every row of an earlier one at its place, up to such steps.\<close>

definition evolves :: "store \<Rightarrow> store \<Rightarrow> bool" where
  "evolves db db' \<longleftrightarrow>
     length (rows db) \<le> length (rows db') \<and>
     (\<forall>k<length (rows db). lifecycle_step (rows db ! k) (rows db' ! k))"

definition same_slot :: "reservation \<Rightarrow> reservation \<Rightarrow> bool" where
  "same_slot a b \<longleftrightarrow>
     table_id a = table_id b \<and> reservation_date a = reservation_date b \<and>
     slot_start_time a = slot_start_time b"

text \<open>
  The invariant of the stores the service produces: primary keys are below the counter and
  distinct, a status is \<open>confirmed\<close> or \<open>cancelled\<close>, a start time is \<^verbatim>\<open>HH:MM\<close>, and no
  two rows are confirmed for the same table, date and start time.
\<close>

definition store_inv :: "store \<Rightarrow> bool" where
  "store_inv db \<longleftrightarrow>
     (\<forall>r\<in>set (rows db). id_pk r < next_id db \<and>
        (status r = ''confirmed'' \<or> status r = ''cancelled'') \<and>
        slot_time_pattern (slot_start_time r)) \<and>
     distinct (map id_pk (rows db)) \<and>
     (\<forall>i<length (rows db). \<forall>j<length (rows db).
        same_slot (rows db ! i) (rows db ! j) \<and> status (rows db ! i) = ''confirmed'' \<and>
        status (rows db ! j) = ''confirmed'' \<longrightarrow> i = j)"

section \<open>Properties\<close>

subsection \<open>The slot helper\<close>

lemma lt10_cases: "d < 10 \<Longrightarrow> d = 0 \<or> d = 1 \<or> d = 2 \<or> d = 3 \<or> d = 4 \<or> d = 5 \<or> d = 6 \<or> d = 7 \<or> d = 8 \<or> d = (9::nat)"
  by arith

lemma digit_val_digit_char:
  assumes "d < 10"
  shows "digit_val (digit_char d) = Some d"
  using lt10_cases[OF assms] by (elim disjE; simp add: digit_val_def digit_char_def)

lemma digit_char_not_colon: "d < 10 \<Longrightarrow> digit_char d \<noteq> CHR '':''"
  using lt10_cases[of d] by (auto simp: digit_char_def)

lemma is_digit_digit_char: "d < 10 \<Longrightarrow> is_digit (digit_char d)"
  by (simp add: is_digit_def digit_val_digit_char)

lemma String_nat_two_digits:
  "n < 100 \<Longrightarrow> padStart 2 CHR ''0'' (String_nat n) = [digit_char (n div 10), digit_char (n mod 10)]"
proof (cases "n < 10")
  case True
  then show ?thesis by (simp add: padStart_def digit_char_def)
next
  case False
  assume "n < 100"
  with False have "n div 10 < 10" "\<not> n < 10" by auto
  then show ?thesis
    by (subst String_nat.simps) (simp add: padStart_def String_nat.simps[of "n div 10"])
qed

lemma Number_two_digits:
  "a < 10 \<Longrightarrow> b < 10 \<Longrightarrow> Number [digit_char a, digit_char b] = Num (10 * a + b)"
  by (simp add: Number_def is_digit_digit_char digit_val_digit_char)

lemma split_hhmm:
  "h < 100 \<Longrightarrow> m < 100 \<Longrightarrow> split_str CHR '':'' (hhmm h m) =
     [[digit_char (h div 10), digit_char (h mod 10)], [digit_char (m div 10), digit_char (m mod 10)]]"
  by (simp add: hhmm_def digit_char_not_colon)

lemma calculateEndTime_hhmm:
  assumes "h < 24" "m < 60"
  shows "calculateEndTime (hhmm h m) = hhmm ((h + 2) mod 24) m"
proof -
  have hm: "h < 100" "m < 100" "h div 10 < 10" "m div 10 < 10" using assms by auto
  have e: "(h + 2) mod 24 < 100" by (rule less_trans[of _ 24]) auto
  have n: "Number [digit_char (h div 10), digit_char (h mod 10)] = Num h"
      "Number [digit_char (m div 10), digit_char (m mod 10)] = Num m"
    using hm by (simp_all add: Number_two_digits)
  have "calculateEndTime (hhmm h m) =
      padStart 2 CHR ''0'' (String_nat ((h + 2) mod 24)) @ '':'' @ padStart 2 CHR ''0'' (String_nat m)"
    unfolding calculateEndTime_def split_hhmm[OF hm(1,2)] by (simp add: n String_num_def)
  also have "\<dots> = hhmm ((h + 2) mod 24) m"
    unfolding String_nat_two_digits[OF e] String_nat_two_digits[OF hm(2)] by (simp add: hhmm_def)
  finally show ?thesis .
qed

lemma digit_char_in_01: "d < 2 \<Longrightarrow> digit_char d \<in> set ''01''"
proof -
  assume "d < 2"
  then have "d = 0 \<or> d = 1" by arith
  then show ?thesis by (auto simp: digit_char_def)
qed

lemma digit_char_in_0123: "d < 4 \<Longrightarrow> digit_char d \<in> set ''0123''"
proof -
  assume "d < 4"
  then have "d = 0 \<or> d = 1 \<or> d = 2 \<or> d = 3" by arith
  then show ?thesis by (auto simp: digit_char_def)
qed

lemma digit_char_in_012345: "d < 6 \<Longrightarrow> digit_char d \<in> set ''012345''"
proof -
  assume "d < 6"
  then have "d = 0 \<or> d = 1 \<or> d = 2 \<or> d = 3 \<or> d = 4 \<or> d = 5" by arith
  then show ?thesis by (auto simp: digit_char_def)
qed

lemma slot_time_pattern_chars:
  assumes "(a \<in> set ''01'' \<and> is_digit b) \<or> (a = CHR ''2'' \<and> b \<in> set ''0123'')"
    and "d \<in> set ''012345''" and "is_digit e"
  shows "slot_time_pattern [a, b, CHR '':'', d, e]"
  unfolding slot_time_pattern_def list.case using assms by blast

lemma slot_time_pattern_hhmm:
  assumes "h < 24" "m < 60"
  shows "slot_time_pattern (hhmm h m)"
proof -
  have d: "h mod 10 < 10" "m mod 10 < 10" by auto
  have "h div 10 < 3" by (rule less_mult_imp_div_less) (use assms in simp)
  moreover have "10 * (h div 10) + h mod 10 = h" by simp
  ultimately have a: "h div 10 < 2 \<or> (h div 10 = 2 \<and> h mod 10 < 4)"
    using assms by linarith
  have b: "m div 10 < 6" by (rule less_mult_imp_div_less) (use assms in simp)
  have two: "digit_char 2 = CHR ''2''" by (simp add: digit_char_def)
  from a have "(digit_char (h div 10) \<in> set ''01'' \<and> is_digit (digit_char (h mod 10))) \<or>
        (digit_char (h div 10) = CHR ''2'' \<and> digit_char (h mod 10) \<in> set ''0123'')"
  proof
    assume "h div 10 < 2"
    then have "digit_char (h div 10) \<in> set ''01''" by (rule digit_char_in_01)
    then show ?thesis using is_digit_digit_char[OF d(1)] by blast
  next
    assume h: "h div 10 = 2 \<and> h mod 10 < 4"
    then have "digit_char (h mod 10) \<in> set ''0123''" by (intro digit_char_in_0123) blast
    moreover have "digit_char (h div 10) = CHR ''2''" using h two by simp
    ultimately show ?thesis by blast
  qed
  then show ?thesis
    unfolding hhmm_def
    by (rule slot_time_pattern_chars) (rule digit_char_in_012345[OF b], rule is_digit_digit_char[OF d(2)])
qed

lemma is_digit_iff: "is_digit c \<longleftrightarrow> (\<exists>d<10. c = digit_char d)"
proof
  assume "is_digit c"
  then obtain d where d: "digit_val c = Some d" by (auto simp: is_digit_def)
  then have "d < 10 \<and> c = digit_char d"
    by (auto simp: digit_val_def digit_char_def split: if_splits)
  then show "\<exists>d<10. c = digit_char d" by blast
next
  assume "\<exists>d<10. c = digit_char d"
  then show "is_digit c" by (auto simp: is_digit_digit_char)
qed

lemma in_01_digit: "a \<in> set ''01'' \<Longrightarrow> \<exists>p<2. a = digit_char p"
proof -
  assume "a \<in> set ''01''"
  then have "a = digit_char 0 \<or> a = digit_char 1" by (simp add: digit_char_def)
  then show ?thesis by (metis zero_less_numeral one_less_numeral_iff semiring_norm(76))
qed

lemma in_0123_digit: "a \<in> set ''0123'' \<Longrightarrow> \<exists>p<4. a = digit_char p"
proof -
  assume "a \<in> set ''0123''"
  then have "a = digit_char 0 \<or> a = digit_char 1 \<or> a = digit_char 2 \<or> a = digit_char 3"
    by (simp add: digit_char_def)
  moreover have "(0::nat) < 4" "(1::nat) < 4" "(2::nat) < 4" "(3::nat) < 4" by simp_all
  ultimately show ?thesis by blast
qed

lemma in_012345_digit: "a \<in> set ''012345'' \<Longrightarrow> \<exists>p<6. a = digit_char p"
proof -
  assume "a \<in> set ''012345''"
  then have "a = digit_char 0 \<or> a = digit_char 1 \<or> a = digit_char 2 \<or> a = digit_char 3
      \<or> a = digit_char 4 \<or> a = digit_char 5"
    by (simp add: digit_char_def)
  moreover have "(0::nat) < 6" "(1::nat) < 6" "(2::nat) < 6" "(3::nat) < 6" "(4::nat) < 6" "(5::nat) < 6"
    by simp_all
  ultimately show ?thesis by blast
qed

lemma hhmm_digits:
  assumes "p < 10" "q < 10" "x < 10" "y < 10"
  shows "hhmm (10 * p + q) (10 * x + y) = [digit_char p, digit_char q, CHR '':'', digit_char x, digit_char y]"
  using assms by (simp add: hhmm_def)

lemma slot_time_pattern_is_hhmm:
  assumes "slot_time_pattern s"
  shows "\<exists>h m. h < 24 \<and> m < 60 \<and> s = hhmm h m"
proof -
  from assms obtain a b d e where s: "s = [a, b, CHR '':'', d, e]"
    and hb: "(a \<in> set ''01'' \<and> is_digit b) \<or> (a = CHR ''2'' \<and> b \<in> set ''0123'')"
    and hd: "d \<in> set ''012345''"
    and he: "is_digit e"
    unfolding slot_time_pattern_def by (auto split: list.splits)
  from he obtain y where y: "y < 10" "e = digit_char y" unfolding is_digit_iff by blast
  from hd obtain x where x: "x < 6" "d = digit_char x" using in_012345_digit by blast
  have two: "CHR ''2'' = digit_char 2" by (simp add: digit_char_def)
  from hb have "\<exists>p q. 10 * p + q < 24 \<and> p < 10 \<and> q < 10 \<and> a = digit_char p \<and> b = digit_char q"
  proof
    assume h: "a \<in> set ''01'' \<and> is_digit b"
    then obtain p where p: "p < 2" "a = digit_char p" using in_01_digit by blast
    from h obtain q where q: "q < 10" "b = digit_char q" unfolding is_digit_iff by blast
    have "10 * p + q < 24" "p < 10" using p(1) q(1) by arith+
    then show ?thesis using p q by blast
  next
    assume h: "a = CHR ''2'' \<and> b \<in> set ''0123''"
    then obtain q where q: "q < 4" "b = digit_char q" using in_0123_digit by blast
    have "10 * 2 + q < 24" "(2::nat) < 10" "q < 10" using q(1) by arith+
    then show ?thesis using h q two by metis
  qed
  then obtain p q where pq: "10 * p + q < 24" "p < 10" "q < 10" "a = digit_char p" "b = digit_char q"
    by blast
  have x10: "x < 10" using x(1) by arith
  have "s = hhmm (10 * p + q) (10 * x + y)"
    unfolding hhmm_digits[OF pq(2,3) x10 y(1)] using s x y pq by simp
  moreover have "10 * x + y < 60" using x y by arith
  ultimately show ?thesis using pq(1) by blast
qed

text \<open>
  Claim C4.  For every time of day \<open>h:m\<close> with \<open>h < 24\<close> and \<open>m < 60\<close>, written
  \<^verbatim>\<open>HH:MM\<close>, \<open>calculateEndTime\<close> returns the time with hour \<open>(h + 2) mod 24\<close> and the
  same minutes, again zero-padded to \<^verbatim>\<open>HH:MM\<close>.  These strings are exactly the ones the
  create schema's pattern admits.  In particular \<^verbatim>\<open>23:30\<close> maps to \<^verbatim>\<open>01:30\<close> and
  \<^verbatim>\<open>23:00\<close> to \<^verbatim>\<open>01:00\<close>.
\<close>

theorem calculateEndTime_wraps:
  "(\<forall>h m. h < 24 \<and> m < 60 \<longrightarrow>
      slot_time_pattern (hhmm h m) \<and> calculateEndTime (hhmm h m) = hhmm ((h + 2) mod 24) m) \<and>
   (\<forall>s. slot_time_pattern s \<longrightarrow> (\<exists>h m. h < 24 \<and> m < 60 \<and> s = hhmm h m)) \<and>
   calculateEndTime ''23:30'' = ''01:30'' \<and> calculateEndTime ''23:00'' = ''01:00''"
proof -
  have "calculateEndTime (hhmm 23 30) = hhmm ((23 + 2) mod 24) 30"
       "calculateEndTime (hhmm 23 0) = hhmm ((23 + 2) mod 24) 0"
    by (rule calculateEndTime_hhmm; simp)+
  then have "calculateEndTime ''23:30'' = ''01:30''" "calculateEndTime ''23:00'' = ''01:00''"
    by (simp_all add: hhmm_def digit_char_def)
  then show ?thesis
    using calculateEndTime_hhmm slot_time_pattern_hhmm slot_time_pattern_is_hhmm by blast
qed

theorem calculateEndTime_wraps_witness:
  "(18::nat) < 24 \<and> (45::nat) < 60 \<and> slot_time_pattern ''18:45'' \<and>
   calculateEndTime ''18:45'' = ''20:45''"
proof -
  have h: "hhmm 18 45 = ''18:45''" "hhmm 20 45 = ''20:45''"
    by (simp_all add: hhmm_def digit_char_def)
  from calculateEndTime_wraps have "(18::nat) < 24 \<and> (45::nat) < 60 \<longrightarrow>
      slot_time_pattern (hhmm 18 45) \<and> calculateEndTime (hhmm 18 45) = hhmm ((18 + 2) mod 24) 45"
    by blast
  then show ?thesis by (simp add: h)
qed

subsection \<open>Availability\<close>

lemma allSlots_end_times:
  "map calculateEndTime allSlots = [''12:00'', ''14:00'', ''16:00'', ''18:00'', ''20:00'', ''22:00'']"
proof -
  have "calculateEndTime (hhmm 10 0) = hhmm ((10 + 2) mod 24) 0"
       "calculateEndTime (hhmm 12 0) = hhmm ((12 + 2) mod 24) 0"
       "calculateEndTime (hhmm 14 0) = hhmm ((14 + 2) mod 24) 0"
       "calculateEndTime (hhmm 16 0) = hhmm ((16 + 2) mod 24) 0"
       "calculateEndTime (hhmm 18 0) = hhmm ((18 + 2) mod 24) 0"
       "calculateEndTime (hhmm 20 0) = hhmm ((20 + 2) mod 24) 0"
    by (rule calculateEndTime_hhmm; simp)+
  then show ?thesis by (simp add: allSlots_def hhmm_def digit_char_def)
qed

lemma booked_iff:
  "s \<in> set (map (\<lambda>r. substring 0 5 (slot_start_time r)) (findAll wh db)) \<longleftrightarrow>
   (\<exists>r\<in>set (rows db). wh r \<and> take 5 (slot_start_time r) = s)"
  by (auto simp: findAll_def substring_def)

lemma get_availability_eq:
  "get_availability tableId (Some d) db =
     (200, Availability tableId d
        (map (\<lambda>s. \<lparr>start_time = s, end_time = calculateEndTime s,
                    available = (\<not> (\<exists>r\<in>set (rows db).
                       (table_id r = tableId \<and> reservation_date r = d \<and> status r = ''confirmed'') \<and>
                       take 5 (slot_start_time r) = s))\<rparr>) allSlots))"
  unfolding get_availability_def option.case Let_def booked_iff by simp

lemma take5_pattern: "slot_time_pattern s \<Longrightarrow> take 5 s = s"
  by (auto simp: slot_time_pattern_def split: list.splits)

text \<open>
  Claim C5.  With a date given, the availability query answers 200 with exactly the six
  slots 10:00, 12:00, 14:00, 16:00, 18:00, 20:00 in that order, each with the end time
  \<open>calculateEndTime\<close> gives (12:00 to 22:00), and each available if and only if no
  \<open>confirmed\<close> reservation of that table and date starts at it.  The start time of a
  reservation is compared at minute precision (the first five characters of the column
  value, which is the whole value for every \<^verbatim>\<open>HH:MM\<close> string).  Cancelled reservations
  do not count, and with no confirmed reservation every slot is available.
\<close>

theorem availability_slots:
  "(let booked = (\<lambda>s. \<exists>r\<in>set (rows db). table_id r = tableId \<and> reservation_date r = d \<and>
                      status r = ''confirmed'' \<and> take 5 (slot_start_time r) = s);
        slots = [\<lparr>start_time = ''10:00'', end_time = ''12:00'', available = (\<not> booked ''10:00'')\<rparr>,
                 \<lparr>start_time = ''12:00'', end_time = ''14:00'', available = (\<not> booked ''12:00'')\<rparr>,
                 \<lparr>start_time = ''14:00'', end_time = ''16:00'', available = (\<not> booked ''14:00'')\<rparr>,
                 \<lparr>start_time = ''16:00'', end_time = ''18:00'', available = (\<not> booked ''16:00'')\<rparr>,
                 \<lparr>start_time = ''18:00'', end_time = ''20:00'', available = (\<not> booked ''18:00'')\<rparr>,
                 \<lparr>start_time = ''20:00'', end_time = ''22:00'', available = (\<not> booked ''20:00'')\<rparr>]
    in get_availability tableId (Some d) db = (200, Availability tableId d slots) \<and>
       map end_time slots = map (\<lambda>x. calculateEndTime (start_time x)) slots \<and>
       ((\<forall>r\<in>set (rows db). slot_time_pattern (slot_start_time r)) \<longrightarrow>
          (\<forall>s. booked s = (\<exists>r\<in>set (rows db). table_id r = tableId \<and> reservation_date r = d \<and>
                      status r = ''confirmed'' \<and> slot_start_time r = s))) \<and>
       ((\<forall>r\<in>set (rows db). table_id r = tableId \<and> reservation_date r = d \<longrightarrow>
            status r \<noteq> ''confirmed'') \<longrightarrow>
          (\<forall>x\<in>set slots. available x)))"
proof -
  have e: "calculateEndTime ''10:00'' = ''12:00''" "calculateEndTime ''12:00'' = ''14:00''"
    "calculateEndTime ''14:00'' = ''16:00''" "calculateEndTime ''16:00'' = ''18:00''"
    "calculateEndTime ''18:00'' = ''20:00''" "calculateEndTime ''20:00'' = ''22:00''"
    using allSlots_end_times by (simp_all add: allSlots_def)
  have 1: "get_availability tableId (Some d) db = (200, Availability tableId d
       [\<lparr>start_time = ''10:00'', end_time = ''12:00'', available = (\<not> (\<exists>r\<in>set (rows db). table_id r = tableId \<and> reservation_date r = d \<and>
                      status r = ''confirmed'' \<and> take 5 (slot_start_time r) = ''10:00''))\<rparr>,
        \<lparr>start_time = ''12:00'', end_time = ''14:00'', available = (\<not> (\<exists>r\<in>set (rows db). table_id r = tableId \<and> reservation_date r = d \<and>
                      status r = ''confirmed'' \<and> take 5 (slot_start_time r) = ''12:00''))\<rparr>,
        \<lparr>start_time = ''14:00'', end_time = ''16:00'', available = (\<not> (\<exists>r\<in>set (rows db). table_id r = tableId \<and> reservation_date r = d \<and>
                      status r = ''confirmed'' \<and> take 5 (slot_start_time r) = ''14:00''))\<rparr>,
        \<lparr>start_time = ''16:00'', end_time = ''18:00'', available = (\<not> (\<exists>r\<in>set (rows db). table_id r = tableId \<and> reservation_date r = d \<and>
                      status r = ''confirmed'' \<and> take 5 (slot_start_time r) = ''16:00''))\<rparr>,
        \<lparr>start_time = ''18:00'', end_time = ''20:00'', available = (\<not> (\<exists>r\<in>set (rows db). table_id r = tableId \<and> reservation_date r = d \<and>
                      status r = ''confirmed'' \<and> take 5 (slot_start_time r) = ''18:00''))\<rparr>,
        \<lparr>start_time = ''20:00'', end_time = ''22:00'', available = (\<not> (\<exists>r\<in>set (rows db). table_id r = tableId \<and> reservation_date r = d \<and>
                      status r = ''confirmed'' \<and> take 5 (slot_start_time r) = ''20:00''))\<rparr>])"
    unfolding get_availability_eq allSlots_def list.map e by (simp only: conj_assoc)
  have 3: "(\<forall>r\<in>set (rows db). slot_time_pattern (slot_start_time r)) \<Longrightarrow>
          (\<exists>r\<in>set (rows db). table_id r = tableId \<and> reservation_date r = d \<and>
                      status r = ''confirmed'' \<and> take 5 (slot_start_time r) = s) =
          (\<exists>r\<in>set (rows db). table_id r = tableId \<and> reservation_date r = d \<and>
                      status r = ''confirmed'' \<and> slot_start_time r = s)" for s
    using take5_pattern by (metis (no_types, lifting))
  have 4: "(\<forall>r\<in>set (rows db). table_id r = tableId \<and> reservation_date r = d \<longrightarrow>
            status r \<noteq> ''confirmed'') \<Longrightarrow>
       \<not> (\<exists>r\<in>set (rows db). table_id r = tableId \<and> reservation_date r = d \<and>
                      status r = ''confirmed'' \<and> take 5 (slot_start_time r) = s)" for s
    by blast
  show ?thesis
    unfolding Let_def
    apply (intro conjI)
       apply (rule 1)
      apply (simp only: list.map slot.simps e)
     apply (intro impI allI 3, assumption)
    apply (intro impI)
    apply (simp only: list.set ball_simps slot.simps)
    apply (intro conjI 4; assumption?)
    apply simp
    done
qed

theorem availability_slots_witness:
  "slot_time_pattern (slot_start_time (rows db2 ! 0)) \<and>
   slot_time_pattern (slot_start_time (rows db2 ! 1)) \<and>
   status (rows db2 ! 0) = ''confirmed'' \<and> status (rows db2 ! 1) = ''cancelled'' \<and>
   get_availability 1 (Some 20812) db2 =
     (200, Availability 1 20812
        [\<lparr>start_time = ''10:00'', end_time = ''12:00'', available = True\<rparr>,
         \<lparr>start_time = ''12:00'', end_time = ''14:00'', available = True\<rparr>,
         \<lparr>start_time = ''14:00'', end_time = ''16:00'', available = True\<rparr>,
         \<lparr>start_time = ''16:00'', end_time = ''18:00'', available = True\<rparr>,
         \<lparr>start_time = ''18:00'', end_time = ''20:00'', available = False\<rparr>,
         \<lparr>start_time = ''20:00'', end_time = ''22:00'', available = True\<rparr>]) \<and>
   get_availability 1 (Some 20812) init_store =
     (200, Availability 1 20812
        [\<lparr>start_time = ''10:00'', end_time = ''12:00'', available = True\<rparr>,
         \<lparr>start_time = ''12:00'', end_time = ''14:00'', available = True\<rparr>,
         \<lparr>start_time = ''14:00'', end_time = ''16:00'', available = True\<rparr>,
         \<lparr>start_time = ''16:00'', end_time = ''18:00'', available = True\<rparr>,
         \<lparr>start_time = ''18:00'', end_time = ''20:00'', available = True\<rparr>,
         \<lparr>start_time = ''20:00'', end_time = ''22:00'', available = True\<rparr>])"
proof -
  have p: "slot_time_pattern ''18:00''" "slot_time_pattern ''20:00''"
    by (simp_all add: slot_time_pattern_def is_digit_def digit_val_def)
  note a = availability_slots[of db2 1 20812, unfolded Let_def, THEN conjunct1]
  note b = availability_slots[of init_store 1 20812, unfolded Let_def, THEN conjunct1]
  show ?thesis
    using a b p by (simp add: db2_def row0_def init_store_def)
qed

subsection \<open>The handlers, case by case\<close>

lemma slot_time_pattern_1800: "slot_time_pattern ''18:00''"
  by (simp add: slot_time_pattern_def is_digit_def digit_val_def)

lemma calculateEndTime_1800: "calculateEndTime ''18:00'' = ''20:00''"
  using allSlots_end_times by (simp add: allSlots_def)

lemma schema_body0:
  "now0 \<le> t \<Longrightarrow> t \<le> 1798156800000 \<Longrightarrow>
   createReservationSchema (isEmail cfg0) t body0 =
     Inr \<lparr>v_table_id = 1, v_customer_name = ''John Doe'',
          v_customer_email = ''john@example.com'', v_customer_phone = ''+1234567890'',
          v_guest_count = 3, v_reservation_date = 1798156800000,
          v_slot_start_time = ''18:00'', v_special_requests = Some ''Window seat''\<rparr>"
  by (simp add: createReservationSchema_def body0_def cfg0_def required_def
      optional_nullable_def failed_def slot_time_pattern_1800)

lemma fetch_env_at: "fetchTableInfo (env_at t) 1 = Some table4"
  by (simp add: fetchTableInfo_def env_at_def)

lemma now_env_at: "now (env_at t) = t"
  by (simp add: env_at_def)

lemma DATEONLY_body0: "DATEONLY cfg0 1798156800000 = 20812"
  by (simp add: DATEONLY_def cfg0_def msPerDay_def)

lemma create_body0_init:
  "create_reservation cfg0 (env_at now0) body0 init_store =
     ((201, Message_reservation ''Reservation created successfully'' row0), db1)"
  by (simp add: create_reservation_def Let_def schema_body0 fetch_env_at table4_def
      DATEONLY_body0 calculateEndTime_1800 findOne_def init_store_def Reservation_create_def
      row0_def db1_def now_env_at now0_def)

lemma create_body0_db1:
  "now0 \<le> t \<Longrightarrow> t \<le> 1798156800000 \<Longrightarrow>
   create_reservation cfg0 (env_at t) body0 db1 =
     ((409, Error ''This table is already booked for the requested date and time slot''), db1)"
  by (simp add: create_reservation_def Let_def schema_body0 fetch_env_at table4_def
      DATEONLY_body0 calculateEndTime_1800 findOne_def db1_def row0_def now_env_at)

lemma findOne_None_iff: "findOne wh db = None \<longleftrightarrow> \<not> (\<exists>r\<in>set (rows db). wh r)"
  by (auto simp: findOne_def find_None_iff)

lemma findOne_Some_ex: "\<exists>r\<in>set (rows db). wh r \<Longrightarrow> \<exists>x. findOne wh db = Some x"
  using findOne_None_iff[of wh db] by (cases "findOne wh db") auto

lemma findByPk_None_iff: "findByPk db i = None \<longleftrightarrow> (\<forall>r\<in>set (rows db). id_pk r \<noteq> i)"
  by (auto simp: findByPk_def find_None_iff)

lemma findByPk_Some: "findByPk db i = Some r \<Longrightarrow> id_pk r = i \<and> r \<in> set (rows db)"
  by (auto simp: findByPk_def find_Some_iff)

lemma create_invalid:
  "createReservationSchema (isEmail cfg) (now e) body = Inl errors \<Longrightarrow>
   create_reservation cfg e body db = ((400, Errors errors), db)"
  by (simp add: create_reservation_def)

lemma create_no_table:
  "createReservationSchema (isEmail cfg) (now e) body = Inr v \<Longrightarrow>
   fetchTableInfo e (v_table_id v) = None \<Longrightarrow>
   create_reservation cfg e body db =
     ((400, Error (''Table '' @ String_int (v_table_id v) @ '' not found or unavailable'')), db)"
  by (simp add: create_reservation_def)

lemma create_inactive:
  "createReservationSchema (isEmail cfg) (now e) body = Inr v \<Longrightarrow>
   fetchTableInfo e (v_table_id v) = Some t \<Longrightarrow> \<not> is_active t \<Longrightarrow>
   create_reservation cfg e body db =
     ((400, Error (''Table '' @ String_int (v_table_id v) @ '' is not active'')), db)"
  by (simp add: create_reservation_def)

lemma create_capacity:
  "createReservationSchema (isEmail cfg) (now e) body = Inr v \<Longrightarrow>
   fetchTableInfo e (v_table_id v) = Some t \<Longrightarrow> is_active t \<Longrightarrow>
   seating_capacity t < v_guest_count v \<Longrightarrow>
   create_reservation cfg e body db =
     ((400, Error (''Guest count ('' @ String_int (v_guest_count v) @
                   '') exceeds table capacity ('' @ String_int (seating_capacity t) @ '')'')), db)"
  by (simp add: create_reservation_def)

lemma create_conflict:
  assumes "createReservationSchema (isEmail cfg) (now e) body = Inr v"
    and "fetchTableInfo e (v_table_id v) = Some t" and "is_active t"
    and "v_guest_count v \<le> seating_capacity t"
    and "\<exists>r\<in>set (rows db). table_id r = v_table_id v \<and>
           reservation_date r = DATEONLY cfg (v_reservation_date v) \<and>
           slot_start_time r = v_slot_start_time v \<and> status r = ''confirmed''"
  shows "create_reservation cfg e body db =
     ((409, Error ''This table is already booked for the requested date and time slot''), db)"
proof -
  from findOne_Some_ex[OF assms(5)] obtain x where
    "findOne (\<lambda>r. table_id r = v_table_id v \<and>
           reservation_date r = DATEONLY cfg (v_reservation_date v) \<and>
           slot_start_time r = v_slot_start_time v \<and> status r = ''confirmed'') db = Some x"
    by blast
  then show ?thesis using assms(1-4) by (simp add: create_reservation_def Let_def)
qed

lemma create_success:
  assumes "createReservationSchema (isEmail cfg) (now e) body = Inr v"
    and "fetchTableInfo e (v_table_id v) = Some t" and "is_active t"
    and "v_guest_count v \<le> seating_capacity t"
    and "\<not> (\<exists>r\<in>set (rows db). table_id r = v_table_id v \<and>
           reservation_date r = DATEONLY cfg (v_reservation_date v) \<and>
           slot_start_time r = v_slot_start_time v \<and> status r = ''confirmed'')"
  shows "create_reservation cfg e body db =
     ((201, Message_reservation ''Reservation created successfully''
              (fst (Reservation_create cfg (now e) v (calculateEndTime (v_slot_start_time v))
                      ''confirmed'' db))),
      snd (Reservation_create cfg (now e) v (calculateEndTime (v_slot_start_time v))
             ''confirmed'' db))"
proof -
  from assms(5) have
    "findOne (\<lambda>r. table_id r = v_table_id v \<and>
           reservation_date r = DATEONLY cfg (v_reservation_date v) \<and>
           slot_start_time r = v_slot_start_time v \<and> status r = ''confirmed'') db = None"
    unfolding findOne_None_iff .
  then show ?thesis using assms(1-4)
    by (simp add: create_reservation_def Let_def split: prod.splits)
qed

lemma create_cases:
  obtains (invalid) errors where "createReservationSchema (isEmail cfg) (now e) body = Inl errors"
      "create_reservation cfg e body db = ((400, Errors errors), db)"
  | (rejected) m where "create_reservation cfg e body db = ((400, Error m), db)"
  | (conflict) v m where "createReservationSchema (isEmail cfg) (now e) body = Inr v"
      "create_reservation cfg e body db = ((409, Error m), db)"
      "\<exists>r\<in>set (rows db). table_id r = v_table_id v \<and>
           reservation_date r = DATEONLY cfg (v_reservation_date v) \<and>
           slot_start_time r = v_slot_start_time v \<and> status r = ''confirmed''"
  | (created) v where "createReservationSchema (isEmail cfg) (now e) body = Inr v"
      "create_reservation cfg e body db =
     ((201, Message_reservation ''Reservation created successfully''
              (fst (Reservation_create cfg (now e) v (calculateEndTime (v_slot_start_time v))
                      ''confirmed'' db))),
      snd (Reservation_create cfg (now e) v (calculateEndTime (v_slot_start_time v))
             ''confirmed'' db))"
      "\<not> (\<exists>r\<in>set (rows db). table_id r = v_table_id v \<and>
           reservation_date r = DATEONLY cfg (v_reservation_date v) \<and>
           slot_start_time r = v_slot_start_time v \<and> status r = ''confirmed'')"
proof (cases "createReservationSchema (isEmail cfg) (now e) body")
  case (Inl errors)
  then show ?thesis using invalid create_invalid by blast
next
  case (Inr v)
  show ?thesis
  proof (cases "fetchTableInfo e (v_table_id v)")
    case None
    then show ?thesis using rejected create_no_table[OF Inr] by blast
  next
    case (Some t)
    show ?thesis
    proof (cases "is_active t")
      case False
      then show ?thesis using rejected create_inactive[OF Inr Some] by blast
    next
      case True
      show ?thesis
      proof (cases "v_guest_count v \<le> seating_capacity t")
        case False
        then have "seating_capacity t < v_guest_count v" by simp
        then show ?thesis using rejected create_capacity[OF Inr Some True] by blast
      next
        case le: True
        show ?thesis
        proof (cases "\<exists>r\<in>set (rows db). table_id r = v_table_id v \<and>
           reservation_date r = DATEONLY cfg (v_reservation_date v) \<and>
           slot_start_time r = v_slot_start_time v \<and> status r = ''confirmed''")
          case True
          then show ?thesis using conflict[OF Inr] create_conflict[OF Inr Some \<open>is_active t\<close> le]
            by blast
        next
          case False
          then show ?thesis using created[OF Inr] create_success[OF Inr Some \<open>is_active t\<close> le]
            by blast
        qed
      qed
    qed
  qed
qed

lemma cancel_not_found:
  "findByPk db i = None \<Longrightarrow>
   cancel_reservation cfg e i db = ((404, Error ''Reservation not found''), db)"
  by (simp add: cancel_reservation_def)

lemma cancel_already:
  "findByPk db i = Some r \<Longrightarrow> status r = ''cancelled'' \<Longrightarrow>
   cancel_reservation cfg e i db = ((400, Error ''Reservation is already cancelled''), db)"
  by (simp add: cancel_reservation_def)

lemma cancel_window:
  "findByPk db i = Some r \<Longrightarrow> status r \<noteq> ''cancelled'' \<Longrightarrow>
   Date_local cfg (reservation_date r) (slot_start_time r) = Some t \<Longrightarrow>
   rat_of_int (t - now e) / (1000 * 60 * 60) < 1 \<Longrightarrow>
   cancel_reservation cfg e i db =
     ((400, Error ''Reservations can only be cancelled at least 1 hour before the reserved time''),
      db)"
  by (simp add: cancel_reservation_def Let_def)

lemma cancel_success:
  assumes "findByPk db i = Some r" and "status r \<noteq> ''cancelled''"
    and "\<forall>t. Date_local cfg (reservation_date r) (slot_start_time r) = Some t \<longrightarrow>
           \<not> rat_of_int (t - now e) / (1000 * 60 * 60) < 1"
  shows "cancel_reservation cfg e i db =
     ((200, Message_reservation ''Reservation cancelled successfully''
              (r\<lparr>status := ''cancelled'', updated_at := now e\<rparr>)),
      db\<lparr>rows := map (\<lambda>x. if id_pk x = i then x\<lparr>status := ''cancelled'', updated_at := now e\<rparr>
                             else x) (rows db)\<rparr>)"
proof -
  have i: "id_pk r = i" using findByPk_Some[OF assms(1)] by simp
  show ?thesis
  proof (cases "Date_local cfg (reservation_date r) (slot_start_time r)")
    case None
    then show ?thesis using assms(1,2) i
      by (simp add: cancel_reservation_def Let_def save_def)
  next
    case (Some t)
    with assms(3) have "\<not> rat_of_int (t - now e) / (1000 * 60 * 60) < 1" by blast
    then show ?thesis using assms(1,2) i Some
      by (simp add: cancel_reservation_def Let_def save_def)
  qed
qed

lemma cancel_cases:
  obtains (not_found) "findByPk db i = None"
      "cancel_reservation cfg e i db = ((404, Error ''Reservation not found''), db)"
  | (rejected) r m where "findByPk db i = Some r"
      "cancel_reservation cfg e i db = ((400, Error m), db)"
  | (cancelled) r where "findByPk db i = Some r" "status r \<noteq> ''cancelled''"
      "cancel_reservation cfg e i db =
     ((200, Message_reservation ''Reservation cancelled successfully''
              (r\<lparr>status := ''cancelled'', updated_at := now e\<rparr>)),
      db\<lparr>rows := map (\<lambda>x. if id_pk x = i then x\<lparr>status := ''cancelled'', updated_at := now e\<rparr>
                             else x) (rows db)\<rparr>)"
proof (cases "findByPk db i")
  case None
  then show ?thesis using not_found cancel_not_found by blast
next
  case (Some r)
  show ?thesis
  proof (cases "status r = ''cancelled''")
    case True
    then show ?thesis using rejected[OF Some] cancel_already[OF Some] by blast
  next
    case False
    show ?thesis
    proof (cases "\<forall>t. Date_local cfg (reservation_date r) (slot_start_time r) = Some t \<longrightarrow>
           \<not> rat_of_int (t - now e) / (1000 * 60 * 60) < 1")
      case True
      then show ?thesis using cancelled[OF Some False] cancel_success[OF Some False] by blast
    next
      case False
      then obtain t where "Date_local cfg (reservation_date r) (slot_start_time r) = Some t"
        "rat_of_int (t - now e) / (1000 * 60 * 60) < 1" by blast
      then show ?thesis
        using rejected[OF Some] cancel_window[OF Some \<open>status r \<noteq> ''cancelled''\<close>] by blast
    qed
  qed
qed

subsection \<open>Rejections write nothing\<close>

text \<open>
  Claim C10.  A create request answered 400 or 409 leaves the store as it was, and so does a
  cancel request answered 404 or 400.  These are all the rejections: create answers 400,
  409 or 201 and cancel answers 404, 400 or 200.
\<close>

theorem rejections_write_nothing:
  "(fst (fst (create_reservation cfg e body db)) \<in> {400, 409} \<longrightarrow>
      snd (create_reservation cfg e body db) = db) \<and>
   fst (fst (create_reservation cfg e body db)) \<in> {400, 409, 201} \<and>
   (fst (fst (cancel_reservation cfg e i db)) \<in> {404, 400} \<longrightarrow>
      snd (cancel_reservation cfg e i db) = db) \<and>
   fst (fst (cancel_reservation cfg e i db)) \<in> {404, 400, 200}"
proof -
  have c: "(fst (fst (create_reservation cfg e body db)) \<in> {400, 409} \<longrightarrow>
      snd (create_reservation cfg e body db) = db) \<and>
   fst (fst (create_reservation cfg e body db)) \<in> {400, 409, 201}"
    by (cases rule: create_cases[of cfg e body db]) simp_all
  have d: "(fst (fst (cancel_reservation cfg e i db)) \<in> {404, 400} \<longrightarrow>
      snd (cancel_reservation cfg e i db) = db) \<and>
   fst (fst (cancel_reservation cfg e i db)) \<in> {404, 400, 200}"
    by (cases rule: cancel_cases[of db i cfg e]) simp_all
  from c d show ?thesis by blast
qed

lemma findByPk_db2: "findByPk db2 2 = Some (rows db2 ! 1)"
  by (simp add: findByPk_def db2_def row0_def)

theorem rejections_write_nothing_witness:
  "create_reservation cfg0 (env_at now0) body0 db1 =
     ((409, Error ''This table is already booked for the requested date and time slot''), db1) \<and>
   fst (fst (create_reservation cfg0 (env_at now0) body0 db1)) \<in> {400, 409} \<and>
   snd (create_reservation cfg0 (env_at now0) body0 db1) = db1 \<and>
   cancel_reservation cfg0 (env_at now0) 2 db2 =
     ((400, Error ''Reservation is already cancelled''), db2) \<and>
   fst (fst (cancel_reservation cfg0 (env_at now0) 2 db2)) \<in> {404, 400} \<and>
   snd (cancel_reservation cfg0 (env_at now0) 2 db2) = db2"
proof -
  have a: "create_reservation cfg0 (env_at now0) body0 db1 =
     ((409, Error ''This table is already booked for the requested date and time slot''), db1)"
    by (rule create_body0_db1) (simp_all add: now0_def)
  have b: "cancel_reservation cfg0 (env_at now0) 2 db2 =
     ((400, Error ''Reservation is already cancelled''), db2)"
    by (rule cancel_already[OF findByPk_db2]) (simp add: db2_def row0_def)
  have a': "fst (fst (create_reservation cfg0 (env_at now0) body0 db1)) \<in> {400, 409}"
    by (simp add: a)
  have b': "fst (fst (cancel_reservation cfg0 (env_at now0) 2 db2)) \<in> {404, 400}"
    by (simp add: b)
  from rejections_write_nothing[of cfg0 "env_at now0" body0 db1 2] a'
  have "snd (create_reservation cfg0 (env_at now0) body0 db1) = db1" by blast
  moreover from rejections_write_nothing[of cfg0 "env_at now0" body0 db2 2] b'
  have "snd (cancel_reservation cfg0 (env_at now0) 2 db2) = db2" by blast
  ultimately show ?thesis using a b a' b' by blast
qed

subsection \<open>The order of the create checks\<close>

text \<open>
  Claim C2.  For a create request that passes the schema (with value \<open>v\<close>), the checks run
  in this order and the first that fails decides: no table from the lookup, 400; table
  not active, 400; more guests than seats, 400 (as many guests as seats pass); a
  \<open>confirmed\<close> reservation of the same table, date and start time in the store, 409.  The
  store is unchanged in each of these cases.  Otherwise the answer is 201 with the new row,
  which is appended to the store with the next primary key, status \<open>confirmed\<close> and the
  end time \<open>calculateEndTime\<close> gives for its start time.
\<close>

theorem create_checks_in_order:
  assumes "createReservationSchema (isEmail cfg) (now e) body = Inr v"
  shows
    "let conflict = (\<exists>r\<in>set (rows db). table_id r = v_table_id v \<and>
                       reservation_date r = DATEONLY cfg (v_reservation_date v) \<and>
                       slot_start_time r = v_slot_start_time v \<and> status r = ''confirmed'');
         new = \<lparr>id_pk = next_id db, table_id = v_table_id v,
                customer_name = v_customer_name v, customer_email = v_customer_email v,
                customer_phone = v_customer_phone v, guest_count = v_guest_count v,
                reservation_date = DATEONLY cfg (v_reservation_date v),
                slot_start_time = v_slot_start_time v,
                slot_end_time = calculateEndTime (v_slot_start_time v),
                status = ''confirmed'', special_requests = v_special_requests v,
                created_at = now e, updated_at = now e\<rparr>
     in (fetchTableInfo e (v_table_id v) = None \<longrightarrow>
           create_reservation cfg e body db =
             ((400, Error (''Table '' @ String_int (v_table_id v) @ '' not found or unavailable'')),
              db)) \<and>
        (\<forall>t. fetchTableInfo e (v_table_id v) = Some t \<longrightarrow>
           (\<not> is_active t \<longrightarrow>
              create_reservation cfg e body db =
                ((400, Error (''Table '' @ String_int (v_table_id v) @ '' is not active'')), db)) \<and>
           (is_active t \<and> seating_capacity t < v_guest_count v \<longrightarrow>
              create_reservation cfg e body db =
                ((400, Error (''Guest count ('' @ String_int (v_guest_count v) @
                              '') exceeds table capacity ('' @
                              String_int (seating_capacity t) @ '')'')), db)) \<and>
           (is_active t \<and> v_guest_count v \<le> seating_capacity t \<and> conflict \<longrightarrow>
              create_reservation cfg e body db =
                ((409, Error ''This table is already booked for the requested date and time slot''),
                 db)) \<and>
           (is_active t \<and> v_guest_count v \<le> seating_capacity t \<and> \<not> conflict \<longrightarrow>
              create_reservation cfg e body db =
                ((201, Message_reservation ''Reservation created successfully'' new),
                 \<lparr>rows = rows db @ [new], next_id = next_id db + 1\<rparr>)))"
  unfolding Let_def
  using create_no_table[OF assms] create_inactive[OF assms] create_capacity[OF assms]
    create_conflict[OF assms, of _ db] create_success[OF assms, of _ db]
  by (simp add: Reservation_create_def Let_def)

lemma schema_body0_guests:
  "createReservationSchema (isEmail cfg0) now0 (body0\<lparr>body_guest_count := Value g\<rparr>) =
     (if 1 \<le> g \<and> g \<le> 20 then
     Inr \<lparr>v_table_id = 1, v_customer_name = ''John Doe'',
          v_customer_email = ''john@example.com'', v_customer_phone = ''+1234567890'',
          v_guest_count = g, v_reservation_date = 1798156800000,
          v_slot_start_time = ''18:00'', v_special_requests = Some ''Window seat''\<rparr>
     else Inl [''guest_count''])"
  by (simp add: createReservationSchema_def body0_def cfg0_def required_def now0_def
      optional_nullable_def failed_def slot_time_pattern_1800)

theorem create_checks_in_order_witness:
  "createReservationSchema (isEmail cfg0) (now (env_at now0)) (body0\<lparr>body_guest_count := Value 4\<rparr>) =
     Inr \<lparr>v_table_id = 1, v_customer_name = ''John Doe'',
          v_customer_email = ''john@example.com'', v_customer_phone = ''+1234567890'',
          v_guest_count = 4, v_reservation_date = 1798156800000,
          v_slot_start_time = ''18:00'', v_special_requests = Some ''Window seat''\<rparr> \<and>
   fetchTableInfo (env_at now0) 1 = Some table4 \<and> is_active table4 \<and>
   seating_capacity table4 = 4 \<and>
   create_reservation cfg0 (env_at now0) (body0\<lparr>body_guest_count := Value 4\<rparr>) init_store =
     ((201, Message_reservation ''Reservation created successfully'' (row0\<lparr>guest_count := 4\<rparr>)),
      \<lparr>rows = [row0\<lparr>guest_count := 4\<rparr>], next_id = 2\<rparr>) \<and>
   create_reservation cfg0 (env_at now0) (body0\<lparr>body_guest_count := Value 4\<rparr>) db1 =
     ((409, Error ''This table is already booked for the requested date and time slot''), db1)"
proof -
  let ?b = "body0\<lparr>body_guest_count := Value 4\<rparr>"
  let ?v = "\<lparr>v_table_id = 1, v_customer_name = ''John Doe'',
          v_customer_email = ''john@example.com'', v_customer_phone = ''+1234567890'',
          v_guest_count = 4, v_reservation_date = 1798156800000,
          v_slot_start_time = ''18:00'', v_special_requests = Some ''Window seat''\<rparr>"
  have s: "createReservationSchema (isEmail cfg0) (now (env_at now0)) ?b = Inr ?v"
    by (simp add: schema_body0_guests now_env_at)
  have f: "fetchTableInfo (env_at now0) (v_table_id ?v) = Some table4"
    by (simp add: fetch_env_at)
  note t = create_checks_in_order[OF s, unfolded Let_def, THEN conjunct2, rule_format, OF f]
  have 1: "create_reservation cfg0 (env_at now0) ?b init_store =
     ((201, Message_reservation ''Reservation created successfully'' (row0\<lparr>guest_count := 4\<rparr>)),
      \<lparr>rows = [row0\<lparr>guest_count := 4\<rparr>], next_id = 2\<rparr>)"
    using t[of init_store]
    by (simp add: table4_def init_store_def DATEONLY_body0 calculateEndTime_1800 row0_def
        now_env_at now0_def)
  have 2: "create_reservation cfg0 (env_at now0) ?b db1 =
     ((409, Error ''This table is already booked for the requested date and time slot''), db1)"
    using t[of db1]
    by (simp add: table4_def db1_def DATEONLY_body0 row0_def)
  show ?thesis using s f 1 2 by (simp add: table4_def)
qed

subsection \<open>Cancellation\<close>

lemma find_map_preserved:
  assumes "\<And>x. id_pk (f x) = id_pk x"
  shows "find (\<lambda>x. id_pk x = i) (map f xs) = map_option f (find (\<lambda>x. id_pk x = i) xs)"
  using assms by (induction xs) simp_all

lemma findByPk_after_update:
  "findByPk (db\<lparr>rows := map (\<lambda>x. if id_pk x = i then x\<lparr>status := st, updated_at := t\<rparr> else x)
                           (rows db)\<rparr>) j =
   map_option (\<lambda>x. if id_pk x = i then x\<lparr>status := st, updated_at := t\<rparr> else x) (findByPk db j)"
  unfolding findByPk_def by (simp add: find_map_preserved)

lemma two_digits_digit_char:
  "a < 10 \<Longrightarrow> b < 10 \<Longrightarrow> two_digits (digit_char a) (digit_char b) = Some (10 * a + b)"
  by (simp add: two_digits_def digit_val_digit_char)

lemma time_of_day_ms_hhmm:
  assumes "h < 24" "m < 60"
  shows "time_of_day_ms (hhmm h m) = Some (int ((h * 60 + m) * 60000))"
proof -
  have d: "h div 10 < 10" "h mod 10 < 10" "m div 10 < 10" "m mod 10 < 10"
    using assms by (auto intro: less_mult_imp_div_less)
  have "10 * (h div 10) + h mod 10 = h" "10 * (m div 10) + m mod 10 = m" by simp_all
  then show ?thesis
    unfolding time_of_day_ms_def hhmm_def list.case
    using assms by (simp add: two_digits_digit_char[OF d(1,2)] two_digits_digit_char[OF d(3,4)])
qed

lemma Date_local_hhmm:
  "h < 24 \<Longrightarrow> m < 60 \<Longrightarrow>
   Date_local cfg d (hhmm h m) =
     Some (d * msPerDay + int ((h * 60 + m) * 60000) - tz_offset_ms cfg)"
  by (simp add: Date_local_def time_of_day_ms_hhmm)

lemma diffHours_lt_1: "rat_of_int x / (1000 * 60 * 60) < 1 \<longleftrightarrow> x < 3600000"
proof -
  have "rat_of_int x / (1000 * 60 * 60) < 1 \<longleftrightarrow> rat_of_int x < rat_of_int 3600000"
    by (simp add: divide_less_eq)
  also have "\<dots> \<longleftrightarrow> x < 3600000" by (simp only: of_int_less_iff)
  finally show ?thesis .
qed

text \<open>
  Claim C3.  A cancel request for a reservation that exists is decided in this order.  If
  its status is \<open>cancelled\<close> already, the answer is 400 (already cancelled) whatever the
  time.  Otherwise, with \<open>t\<close> the instant of its date and start time (in local time) and
  \<open>diffHours\<close> the hours from now to \<open>t\<close>: if \<open>diffHours < 1\<close> the answer is 400 (window)
  and the store is unchanged; if \<open>diffHours \<ge> 1\<close> the answer is 200, the row gets status
  \<open>cancelled\<close> and the update timestamp \<open>now\<close>, every other column of it and every other
  row stay as they were, and a lookup of the id afterwards finds the cancelled row.
  \<open>diffHours < 1\<close> holds exactly when fewer than 3600000 milliseconds remain, and for a
  start time \<^verbatim>\<open>HH:MM\<close> the instant is the day's midnight plus \<open>h\<close> hours and \<open>m\<close>
  minutes.
\<close>

theorem cancel_outcomes:
  assumes "findByPk db i = Some r"
  shows
    "let cancelled = r\<lparr>status := ''cancelled'', updated_at := now e\<rparr>;
         db' = db\<lparr>rows := map (\<lambda>x. if id_pk x = i then x\<lparr>status := ''cancelled'', updated_at := now e\<rparr>
                                   else x) (rows db)\<rparr>
     in (status r = ''cancelled'' \<longrightarrow>
           cancel_reservation cfg e i db = ((400, Error ''Reservation is already cancelled''), db)) \<and>
        (\<forall>t. status r \<noteq> ''cancelled'' \<and>
              Date_local cfg (reservation_date r) (slot_start_time r) = Some t \<longrightarrow>
           (rat_of_int (t - now e) / (1000 * 60 * 60) < 1 \<longrightarrow>
              cancel_reservation cfg e i db =
                ((400, Error ''Reservations can only be cancelled at least 1 hour before the reserved time''),
                 db)) \<and>
           (1 \<le> rat_of_int (t - now e) / (1000 * 60 * 60) \<longrightarrow>
              cancel_reservation cfg e i db =
                ((200, Message_reservation ''Reservation cancelled successfully'' cancelled), db') \<and>
              findByPk db' i = Some cancelled \<and>
              length (rows db') = length (rows db) \<and> next_id db' = next_id db \<and>
              (\<forall>k<length (rows db). id_pk (rows db ! k) \<noteq> i \<longrightarrow> rows db' ! k = rows db ! k))) \<and>
        (\<forall>x. rat_of_int x / (1000 * 60 * 60) < 1 \<longleftrightarrow> x < 3600000) \<and>
        (\<forall>d h m. h < 24 \<and> m < 60 \<longrightarrow>
           Date_local cfg d (hhmm h m) =
             Some (d * msPerDay + int ((h * 60 + m) * 60000) - tz_offset_ms cfg))"
proof -
  have i: "id_pk r = i" using findByPk_Some[OF assms] by simp
  have a: "status r = ''cancelled'' \<Longrightarrow>
           cancel_reservation cfg e i db = ((400, Error ''Reservation is already cancelled''), db)"
    by (rule cancel_already[OF assms])
  have b: "cancel_reservation cfg e i db =
                ((400, Error ''Reservations can only be cancelled at least 1 hour before the reserved time''),
                 db)"
    if "status r \<noteq> ''cancelled''" "Date_local cfg (reservation_date r) (slot_start_time r) = Some t"
       "rat_of_int (t - now e) / (1000 * 60 * 60) < 1" for t
    using cancel_window[OF assms that] .
  have c: "cancel_reservation cfg e i db =
     ((200, Message_reservation ''Reservation cancelled successfully''
              (r\<lparr>status := ''cancelled'', updated_at := now e\<rparr>)),
      db\<lparr>rows := map (\<lambda>x. if id_pk x = i then x\<lparr>status := ''cancelled'', updated_at := now e\<rparr>
                             else x) (rows db)\<rparr>)"
    if "status r \<noteq> ''cancelled''" "Date_local cfg (reservation_date r) (slot_start_time r) = Some t"
       "1 \<le> rat_of_int (t - now e) / (1000 * 60 * 60)" for t
    by (rule cancel_success[OF assms that(1)]) (use that in auto)
  have d: "findByPk (db\<lparr>rows := map (\<lambda>x. if id_pk x = i then x\<lparr>status := ''cancelled'', updated_at := now e\<rparr>
                                   else x) (rows db)\<rparr>) i = Some (r\<lparr>status := ''cancelled'', updated_at := now e\<rparr>)"
    unfolding findByPk_after_update using assms i by simp
  show ?thesis
    unfolding Let_def
    apply (intro conjI allI impI)
            apply (erule a)
           apply (rule b; blast)
          apply (rule c; blast)
         apply (rule d)
        apply simp
       apply simp
      apply simp
     apply (rule diffHours_lt_1)
    apply (rule Date_local_hhmm; blast)
    done
qed

lemma findByPk_db1: "findByPk db1 1 = Some row0"
  by (simp add: findByPk_def db1_def row0_def)

lemma Date_local_row0:
  "Date_local cfg0 (reservation_date row0) (slot_start_time row0) = Some 1798221600000"
proof -
  have "Date_local cfg0 20812 (hhmm 18 0) =
     Some (20812 * msPerDay + int ((18 * 60 + 0) * 60000) - tz_offset_ms cfg0)"
    by (rule Date_local_hhmm) simp_all
  then show ?thesis by (simp add: hhmm_def digit_char_def row0_def msPerDay_def cfg0_def)
qed

theorem cancel_outcomes_witness:
  "findByPk db1 1 = Some row0 \<and> status row0 = ''confirmed'' \<and>
   Date_local cfg0 (reservation_date row0) (slot_start_time row0) = Some 1798221600000 \<and>
   cancel_reservation cfg0 (env_at 1798218000000) 1 db1 =
     ((200, Message_reservation ''Reservation cancelled successfully''
              (row0\<lparr>status := ''cancelled'', updated_at := 1798218000000\<rparr>)),
      \<lparr>rows = [row0\<lparr>status := ''cancelled'', updated_at := 1798218000000\<rparr>], next_id = 2\<rparr>) \<and>
   cancel_reservation cfg0 (env_at 1798218000001) 1 db1 =
     ((400, Error ''Reservations can only be cancelled at least 1 hour before the reserved time''),
      db1) \<and>
   findByPk db2 2 = Some (rows db2 ! 1) \<and> status (rows db2 ! 1) = ''cancelled'' \<and>
   cancel_reservation cfg0 (env_at now0) 2 db2 =
     ((400, Error ''Reservation is already cancelled''), db2)"
proof -
  have st: "status row0 = ''confirmed''" "status row0 \<noteq> ''cancelled''"
    by (simp_all add: row0_def)
  note t = cancel_outcomes[OF findByPk_db1, unfolded Let_def, THEN conjunct2, THEN conjunct1,
      rule_format, OF conjI, OF st(2) Date_local_row0]
  have 1: "cancel_reservation cfg0 (env_at 1798218000000) 1 db1 =
     ((200, Message_reservation ''Reservation cancelled successfully''
              (row0\<lparr>status := ''cancelled'', updated_at := 1798218000000\<rparr>)),
      \<lparr>rows = [row0\<lparr>status := ''cancelled'', updated_at := 1798218000000\<rparr>], next_id = 2\<rparr>)"
    using t[of "env_at 1798218000000", THEN conjunct2]
    by (simp add: now_env_at db1_def row0_def)
  have 2: "cancel_reservation cfg0 (env_at 1798218000001) 1 db1 =
     ((400, Error ''Reservations can only be cancelled at least 1 hour before the reserved time''),
      db1)"
    using t[of "env_at 1798218000001", THEN conjunct1]
    by (simp add: now_env_at)
  have s2: "status (rows db2 ! 1) = ''cancelled''" by (simp add: db2_def row0_def)
  have 3: "cancel_reservation cfg0 (env_at now0) 2 db2 =
     ((400, Error ''Reservation is already cancelled''), db2)"
    using cancel_outcomes[OF findByPk_db2, unfolded Let_def, THEN conjunct1, rule_format, OF s2] .
  show ?thesis using findByPk_db1 st(1) Date_local_row0 1 2 findByPk_db2 s2 3 by blast
qed

subsection \<open>Reading a reservation, and the date rule\<close>

lemma fetchTableInfo_None_iff:
  "fetchTableInfo e tableId = None \<longleftrightarrow>
     (table_service e tableId = Fetch_rejects \<or>
      (\<exists>b. table_service e tableId = Fetch_resolves False b) \<or>
      table_service e tableId = Fetch_resolves True Json_throws \<or>
      table_service e tableId = Fetch_resolves True (Json_data None))"
  by (auto simp: fetchTableInfo_def split: fetch_outcome.splits json_body.splits)

text \<open>
  Claim C8.  A get-by-id request for an id no row has is answered 404.  For an id a row
  has, the answer is 200 with that row, together with the table the lookup returned or,
  when the lookup returned none, with a placeholder holding the table id and the text
  \<^verbatim>\<open>Table details unavailable\<close>.  The lookup returns none exactly when the fetch rejects,
  the response is not ok, its body does not parse, or the body has no table.
\<close>

theorem get_reservation_outcomes:
  "(findByPk db i = None \<longleftrightarrow> (\<forall>r\<in>set (rows db). id_pk r \<noteq> i)) \<and>
   (findByPk db i = None \<longrightarrow> get_reservation e i db = (404, Error ''Reservation not found'')) \<and>
   (\<forall>r. findByPk db i = Some r \<longrightarrow>
      id_pk r = i \<and> r \<in> set (rows db) \<and>
      (\<forall>t. fetchTableInfo e (table_id r) = Some t \<longrightarrow>
         get_reservation e i db = (200, Reservation_with_table r (Table_info t))) \<and>
      (fetchTableInfo e (table_id r) = None \<longrightarrow>
         get_reservation e i db =
           (200, Reservation_with_table r
                   (Table_placeholder (table_id r) ''Table details unavailable'')))) \<and>
   (\<forall>tableId. fetchTableInfo e tableId = None \<longleftrightarrow>
      (table_service e tableId = Fetch_rejects \<or>
       (\<exists>b. table_service e tableId = Fetch_resolves False b) \<or>
       table_service e tableId = Fetch_resolves True Json_throws \<or>
       table_service e tableId = Fetch_resolves True (Json_data None)))"
proof -
  have a: "findByPk db i = None \<Longrightarrow>
      get_reservation e i db = (404, Error ''Reservation not found'')"
    by (simp add: get_reservation_def)
  have b: "findByPk db i = Some r \<Longrightarrow> fetchTableInfo e (table_id r) = Some t \<Longrightarrow>
      get_reservation e i db = (200, Reservation_with_table r (Table_info t))" for r t
    by (simp add: get_reservation_def)
  have c: "findByPk db i = Some r \<Longrightarrow> fetchTableInfo e (table_id r) = None \<Longrightarrow>
      get_reservation e i db =
        (200, Reservation_with_table r (Table_placeholder (table_id r) ''Table details unavailable''))"
    for r
    by (simp add: get_reservation_def)
  show ?thesis
    apply (intro conjI allI impI)
          apply (rule findByPk_None_iff)
         apply (erule a)
        apply (drule findByPk_Some, blast)
       apply (drule findByPk_Some, blast)
      apply (erule (1) b)
     apply (erule (1) c)
    apply (rule fetchTableInfo_None_iff)
    done
qed

theorem get_reservation_outcomes_witness:
  "findByPk db1 1 = Some row0 \<and> table_service (env_down now0) (table_id row0) = Fetch_rejects \<and>
   get_reservation (env_down now0) 1 db1 =
     (200, Reservation_with_table row0 (Table_placeholder 1 ''Table details unavailable'')) \<and>
   get_reservation (env_at now0) 1 db1 = (200, Reservation_with_table row0 (Table_info table4)) \<and>
   findByPk db1 9999 = None \<and>
   get_reservation (env_at now0) 9999 db1 = (404, Error ''Reservation not found'')"
proof -
  have r: "table_service (env_down now0) (table_id row0) = Fetch_rejects"
    by (simp add: env_down_def)
  have n: "fetchTableInfo (env_down now0) (table_id row0) = None"
    using get_reservation_outcomes[of db1 1 "env_down now0", THEN conjunct2, THEN conjunct2,
        THEN conjunct2, rule_format, of "table_id row0"] r by blast
  have t: "table_id row0 = 1" by (simp add: row0_def)
  have 1: "get_reservation (env_down now0) 1 db1 =
     (200, Reservation_with_table row0 (Table_placeholder 1 ''Table details unavailable''))"
    using get_reservation_outcomes[of db1 1 "env_down now0", THEN conjunct2, THEN conjunct2,
        THEN conjunct1, rule_format, OF findByPk_db1] n t by simp
  have 2: "get_reservation (env_at now0) 1 db1 =
     (200, Reservation_with_table row0 (Table_info table4))"
    using get_reservation_outcomes[of db1 1 "env_at now0", THEN conjunct2, THEN conjunct2,
        THEN conjunct1, rule_format, OF findByPk_db1] fetch_env_at[of now0] t by simp
  have m: "findByPk db1 9999 = None" by (simp add: findByPk_def db1_def row0_def)
  have 3: "get_reservation (env_at now0) 9999 db1 = (404, Error ''Reservation not found'')"
    using get_reservation_outcomes[of db1 9999 "env_at now0", THEN conjunct2, THEN conjunct1] m
    by blast
  show ?thesis using findByPk_db1 r 1 2 m 3 by blast
qed

text \<open>
  The date rule of the create schema accepts a date exactly when its instant is not before
  the instant of validation.  For a date-only value, which is midnight UTC of its day,
  this accepts every later day and rejects every earlier day, and it rejects the current
  day as soon as the clock is past midnight UTC.
\<close>

lemma date_rule_day:
  "required (\<lambda>t. t0 \<le> t) (Value (utc_midnight d)) \<noteq> None \<longleftrightarrow> t0 \<le> d * msPerDay"
  by (simp add: required_def utc_midnight_def)

lemma div_mod_msPerDay:
  "t0 = (t0 div msPerDay) * msPerDay + t0 mod msPerDay" "0 \<le> t0 mod msPerDay"
  "t0 mod msPerDay < msPerDay"
  by (simp_all add: msPerDay_def)

lemma date_rule_future_day:
  assumes "t0 div msPerDay < d"
  shows "required (\<lambda>t. t0 \<le> t) (Value (utc_midnight d)) \<noteq> None"
proof -
  have p: "0 \<le> msPerDay" by (simp add: msPerDay_def)
  from assms have "t0 div msPerDay + 1 \<le> d" by simp
  then have "(t0 div msPerDay + 1) * msPerDay \<le> d * msPerDay"
    using p by (rule mult_right_mono)
  then have "(t0 div msPerDay) * msPerDay + msPerDay \<le> d * msPerDay"
    by (simp only: distrib_right mult_1)
  with div_mod_msPerDay[of t0] have "t0 \<le> d * msPerDay" by linarith
  then show ?thesis unfolding date_rule_day .
qed

lemma date_rule_past_day:
  assumes "d < t0 div msPerDay"
  shows "required (\<lambda>t. t0 \<le> t) (Value (utc_midnight d)) = None"
proof -
  have p: "0 \<le> msPerDay" "0 < msPerDay" by (simp_all add: msPerDay_def)
  from assms have "d + 1 \<le> t0 div msPerDay" by simp
  then have "(d + 1) * msPerDay \<le> (t0 div msPerDay) * msPerDay"
    using p(1) by (rule mult_right_mono)
  then have "d * msPerDay + msPerDay \<le> (t0 div msPerDay) * msPerDay"
    by (simp only: distrib_right mult_1)
  with div_mod_msPerDay[of t0] p(2) have "\<not> t0 \<le> d * msPerDay" by linarith
  then show ?thesis using date_rule_day[of t0 d] by simp
qed

lemma date_rule_today:
  assumes "t0 mod msPerDay \<noteq> 0"
  shows "required (\<lambda>t. t0 \<le> t) (Value (utc_midnight (t0 div msPerDay))) = None"
proof -
  from assms div_mod_msPerDay[of t0] have "\<not> t0 \<le> (t0 div msPerDay) * msPerDay" by linarith
  then show ?thesis using date_rule_day[of t0 "t0 div msPerDay"] by simp
qed

text \<open>
  Claim C9.  The schema's date rule is to accept today's date and any later one; its own
  message reads \<^verbatim>\<open>Reservation date must be today or in the future\<close>.  At noon UTC of
  2026-03-01 (day 20513) the request of the tests, asked for 2026-03-01, is answered 400
  with \<open>reservation_date\<close> as the key in error and nothing is stored, while the same
  request for 2026-03-02 is created.
\<close>

theorem today_is_rejected:
  "DATEONLY cfg0 now0 = 20513 \<and>
   create_reservation cfg0 (env_at now0)
       (body0\<lparr>body_reservation_date := Value (utc_midnight 20513)\<rparr>) init_store =
     ((400, Errors [''reservation_date'']), init_store) \<and>
   fst (fst (create_reservation cfg0 (env_at now0)
       (body0\<lparr>body_reservation_date := Value (utc_midnight 20514)\<rparr>) init_store)) = 201"
proof -
  have 1: "DATEONLY cfg0 now0 = 20513"
    by (simp add: DATEONLY_def cfg0_def now0_def msPerDay_def)
  have "createReservationSchema (isEmail cfg0) (now (env_at now0))
       (body0\<lparr>body_reservation_date := Value (utc_midnight 20513)\<rparr>) = Inl [''reservation_date'']"
    by (simp add: createReservationSchema_def body0_def cfg0_def required_def now0_def
        optional_nullable_def failed_def slot_time_pattern_1800 now_env_at utc_midnight_def
        msPerDay_def)
  then have 2: "create_reservation cfg0 (env_at now0)
       (body0\<lparr>body_reservation_date := Value (utc_midnight 20513)\<rparr>) init_store =
     ((400, Errors [''reservation_date'']), init_store)"
    by (rule create_invalid)
  have s: "createReservationSchema (isEmail cfg0) (now (env_at now0))
       (body0\<lparr>body_reservation_date := Value (utc_midnight 20514)\<rparr>) =
       Inr \<lparr>v_table_id = 1, v_customer_name = ''John Doe'',
          v_customer_email = ''john@example.com'', v_customer_phone = ''+1234567890'',
          v_guest_count = 3, v_reservation_date = 1772409600000,
          v_slot_start_time = ''18:00'', v_special_requests = Some ''Window seat''\<rparr>"
    by (simp add: createReservationSchema_def body0_def cfg0_def required_def now0_def
        optional_nullable_def failed_def slot_time_pattern_1800 now_env_at utc_midnight_def
        msPerDay_def)
  have 3: "fst (fst (create_reservation cfg0 (env_at now0)
       (body0\<lparr>body_reservation_date := Value (utc_midnight 20514)\<rparr>) init_store)) = 201"
    by (subst create_success[OF s, of table4])
      (simp_all add: fetch_env_at table4_def init_store_def)
  show ?thesis using 1 2 3 by blast
qed

subsection \<open>Listing: helper facts\<close>

lemma Math_ceil_div_eq: "Math_ceil_div a l = - ((- a) div l)"
proof -
  have "- (rat_of_int a / rat_of_int l) = rat_of_int (- a) / rat_of_int l" by simp
  then show ?thesis
    unfolding Math_ceil_div_def ceiling_def by (simp only: floor_divide_of_int_eq)
qed

lemma Math_ceil_div_bounds:
  assumes "0 < l"
  shows "a \<le> Math_ceil_div a l * l \<and> (Math_ceil_div a l - 1) * l < a"
proof -
  let ?x = "rat_of_int a / rat_of_int l"
  have l: "0 < rat_of_int l" using assms by simp
  have "(rat_of_int \<lceil>?x\<rceil> - 1) * rat_of_int l < rat_of_int a"
    using l by (rule ceiling_divide_lower)
  moreover have "rat_of_int a \<le> rat_of_int \<lceil>?x\<rceil> * rat_of_int l"
    using l by (rule ceiling_divide_upper)
  ultimately have "rat_of_int ((\<lceil>?x\<rceil> - 1) * l) < rat_of_int a"
    "rat_of_int a \<le> rat_of_int (\<lceil>?x\<rceil> * l)"
    by simp_all
  then have "(\<lceil>?x\<rceil> - 1) * l < a" "a \<le> \<lceil>?x\<rceil> * l"
    by (simp_all only: of_int_less_iff of_int_le_iff)
  then show ?thesis by (simp add: Math_ceil_div_def)
qed

lemma with_default_Some:
  "with_default d ok f = Some x \<longleftrightarrow>
     (f = Missing \<and> x = d) \<or> (f = Value x \<and> ok x)"
  by (auto simp: with_default_def split: field.splits)

lemma optional_Some:
  "optional ok f = Some x \<longleftrightarrow>
     (f = Missing \<and> x = None) \<or> (\<exists>y. f = Value y \<and> ok y \<and> x = Some y)"
  by (auto simp: optional_def split: field.splits)

lemma query_schema_Inr:
  assumes "queryReservationsSchema q = Inr v"
  shows "optional (\<lambda>t. True) (query_date q) = Some (lv_date v)"
    and "optional (\<lambda>n. 0 < n) (query_table_id q) = Some (lv_table_id v)"
    and "optional (\<lambda>s. s = ''confirmed'' \<or> s = ''cancelled'') (query_status q) = Some (lv_status v)"
    and "with_default 1 (\<lambda>n. 1 \<le> n) (query_page q) = Some (lv_page v)"
    and "with_default 20 (\<lambda>n. 1 \<le> n \<and> n \<le> 50) (query_limit q) = Some (lv_limit v)"
  using assms
  by (auto simp: queryReservationsSchema_def Let_def bind_eq_Some_conv split: option.splits)

lemma query_schema_Inl:
  assumes "with_default 1 (\<lambda>n. 1 \<le> n) (query_page q) = None \<or>
           with_default 20 (\<lambda>n. 1 \<le> n \<and> n \<le> 50) (query_limit q) = None"
  shows "\<exists>errors. queryReservationsSchema q = Inl errors"
  using assms
  by (auto simp: queryReservationsSchema_def Let_def bind_eq_None_conv split: option.splits)

lemma list_invalid:
  "queryReservationsSchema q = Inl errors \<Longrightarrow> list_reservations cfg q db = (400, Errors errors)"
  by (simp add: list_reservations_def)

lemma list_valid:
  "queryReservationsSchema q = Inr v \<Longrightarrow>
   list_reservations cfg q db =
     (200, Reservation_page
        (take (nat (lv_limit v)) (drop (nat ((lv_page v - 1) * lv_limit v))
           (sort_key (\<lambda>r. (reservation_date r, slot_start_time r))
              (filter (\<lambda>r. (case lv_date v of None \<Rightarrow> True
                                            | Some d \<Rightarrow> reservation_date r = DATEONLY cfg d) \<and>
                          (case lv_table_id v of None \<Rightarrow> True | Some t \<Rightarrow> table_id r = t) \<and>
                          (case lv_status v of None \<Rightarrow> True | Some s \<Rightarrow> status r = s))
                 (rows db)))))
        (int (length (filter (\<lambda>r. (case lv_date v of None \<Rightarrow> True
                                            | Some d \<Rightarrow> reservation_date r = DATEONLY cfg d) \<and>
                          (case lv_table_id v of None \<Rightarrow> True | Some t \<Rightarrow> table_id r = t) \<and>
                          (case lv_status v of None \<Rightarrow> True | Some s \<Rightarrow> status r = s))
                 (rows db))))
        (lv_page v)
        (Math_ceil_div (int (length (filter (\<lambda>r. (case lv_date v of None \<Rightarrow> True
                                            | Some d \<Rightarrow> reservation_date r = DATEONLY cfg d) \<and>
                          (case lv_table_id v of None \<Rightarrow> True | Some t \<Rightarrow> table_id r = t) \<and>
                          (case lv_status v of None \<Rightarrow> True | Some s \<Rightarrow> status r = s))
                 (rows db)))) (lv_limit v)))"
  by (simp add: list_reservations_def findAndCountAll_def Let_def)

lemma sorted_by_date_then_start:
  "sorted_wrt (\<lambda>a b. reservation_date a < reservation_date b \<or>
                     (reservation_date a = reservation_date b \<and>
                      slot_start_time a \<le> slot_start_time b))
     (sort_key (\<lambda>r. (reservation_date r, slot_start_time r)) xs)"
proof -
  have "sorted (map (\<lambda>r. (reservation_date r, slot_start_time r))
          (sort_key (\<lambda>r. (reservation_date r, slot_start_time r)) xs))"
    by (rule sorted_sort_key)
  then have "sorted_wrt (\<lambda>a b. (reservation_date a, slot_start_time a) \<le>
                               (reservation_date b, slot_start_time b))
          (sort_key (\<lambda>r. (reservation_date r, slot_start_time r)) xs)"
    by (simp only: sorted_map)
  then show ?thesis
    by (rule sorted_wrt_mono_rel[rotated]) (auto simp: less_eq_prod_def)
qed

subsection \<open>Listing\<close>

lemma optional_filter:
  "optional ok f = Some x \<Longrightarrow>
   (case x of None \<Rightarrow> True | Some d \<Rightarrow> P d) = (\<forall>d. f = Value d \<longrightarrow> P d)"
  by (auto simp: optional_Some)

lemma with_default_value:
  "with_default d ok f = Some x \<Longrightarrow> ok d \<Longrightarrow>
   (case f of Value p \<Rightarrow> p | _ \<Rightarrow> d) = x \<and> ok x"
  by (auto simp: with_default_Some)

text \<open>
  Claim C7.  A list request whose page is below 1 or whose limit is outside 1 to 50 is
  answered 400.  For a request the schema accepts, the page is the given one or 1 and the
  limit the given one or 20; the answer is 200 with the rows that match every filter given
  (date, table, status), ordered by date and then start time, without the first
  \<open>(page - 1) * limit\<close> of them and cut to at most \<open>limit\<close> rows, with the number of
  matching rows as total, the page, and as total pages the least number of pages of
  \<open>limit\<close> rows that hold them all, \<^verbatim>\<open>Math.ceil(total / limit)\<close>.
\<close>

theorem list_reservations_page:
  "(\<forall>p. query_page q = Value p \<and> p < 1 \<longrightarrow> fst (list_reservations cfg q db) = 400) \<and>
   (\<forall>l. query_limit q = Value l \<and> (l < 1 \<or> 50 < l) \<longrightarrow>
        fst (list_reservations cfg q db) = 400) \<and>
   (\<forall>v. queryReservationsSchema q = Inr v \<longrightarrow>
      (let page = (case query_page q of Value p \<Rightarrow> p | _ \<Rightarrow> 1);
           limit = (case query_limit q of Value l \<Rightarrow> l | _ \<Rightarrow> 20);
           matching = filter (\<lambda>r. (\<forall>d. query_date q = Value d \<longrightarrow>
                                        reservation_date r = DATEONLY cfg d) \<and>
                                   (\<forall>t. query_table_id q = Value t \<longrightarrow> table_id r = t) \<and>
                                   (\<forall>s. query_status q = Value s \<longrightarrow> status r = s)) (rows db);
           ordered = sort_key (\<lambda>r. (reservation_date r, slot_start_time r)) matching;
           total = int (length matching);
           totalPages = Math_ceil_div total limit
       in 1 \<le> page \<and> 1 \<le> limit \<and> limit \<le> 50 \<and>
          list_reservations cfg q db =
            (200, Reservation_page (take (nat limit) (drop (nat ((page - 1) * limit)) ordered))
                    total page totalPages) \<and>
          mset ordered = mset matching \<and>
          sorted_wrt (\<lambda>a b. reservation_date a < reservation_date b \<or>
                             (reservation_date a = reservation_date b \<and>
                              slot_start_time a \<le> slot_start_time b)) ordered \<and>
          length (take (nat limit) (drop (nat ((page - 1) * limit)) ordered)) \<le> nat limit \<and>
          total \<le> totalPages * limit \<and> (totalPages - 1) * limit < total))"
proof (intro conjI allI impI)
  fix p assume "query_page q = Value p \<and> p < 1"
  then have "with_default 1 (\<lambda>n. 1 \<le> n) (query_page q) = None"
    by (simp add: with_default_def)
  then obtain errors where "queryReservationsSchema q = Inl errors"
    using query_schema_Inl[of q] by blast
  then show "fst (list_reservations cfg q db) = 400" by (simp add: list_invalid)
next
  fix l assume "query_limit q = Value l \<and> (l < 1 \<or> 50 < l)"
  then have "with_default 20 (\<lambda>n. 1 \<le> n \<and> n \<le> 50) (query_limit q) = None"
    by (auto simp: with_default_def)
  then obtain errors where "queryReservationsSchema q = Inl errors"
    using query_schema_Inl[of q] by blast
  then show "fst (list_reservations cfg q db) = 400" by (simp add: list_invalid)
next
  fix v assume s: "queryReservationsSchema q = Inr v"
  note f = query_schema_Inr[OF s]
  have wh: "filter (\<lambda>r. (case lv_date v of None \<Rightarrow> True
                                     | Some d \<Rightarrow> reservation_date r = DATEONLY cfg d) \<and>
                  (case lv_table_id v of None \<Rightarrow> True | Some t \<Rightarrow> table_id r = t) \<and>
                  (case lv_status v of None \<Rightarrow> True | Some s \<Rightarrow> status r = s)) (rows db) =
            filter (\<lambda>r. (\<forall>d. query_date q = Value d \<longrightarrow> reservation_date r = DATEONLY cfg d) \<and>
                  (\<forall>t. query_table_id q = Value t \<longrightarrow> table_id r = t) \<and>
                  (\<forall>s. query_status q = Value s \<longrightarrow> status r = s)) (rows db)"
    by (rule filter_cong[OF refl]) (simp only: optional_filter[OF f(1)] optional_filter[OF f(2)]
        optional_filter[OF f(3)])
  have pg: "(case query_page q of Value p \<Rightarrow> p | _ \<Rightarrow> 1) = lv_page v" "1 \<le> lv_page v"
    using with_default_value[OF f(4)] by simp_all
  have lm: "(case query_limit q of Value l \<Rightarrow> l | _ \<Rightarrow> 20) = lv_limit v"
    "1 \<le> lv_limit v" "lv_limit v \<le> 50"
    using with_default_value[OF f(5)] by simp_all
  have pos: "0 < lv_limit v" using lm(2) by simp
  show "let page = (case query_page q of Value p \<Rightarrow> p | _ \<Rightarrow> 1);
           limit = (case query_limit q of Value l \<Rightarrow> l | _ \<Rightarrow> 20);
           matching = filter (\<lambda>r. (\<forall>d. query_date q = Value d \<longrightarrow>
                                        reservation_date r = DATEONLY cfg d) \<and>
                                   (\<forall>t. query_table_id q = Value t \<longrightarrow> table_id r = t) \<and>
                                   (\<forall>s. query_status q = Value s \<longrightarrow> status r = s)) (rows db);
           ordered = sort_key (\<lambda>r. (reservation_date r, slot_start_time r)) matching;
           total = int (length matching);
           totalPages = Math_ceil_div total limit
       in 1 \<le> page \<and> 1 \<le> limit \<and> limit \<le> 50 \<and>
          list_reservations cfg q db =
            (200, Reservation_page (take (nat limit) (drop (nat ((page - 1) * limit)) ordered))
                    total page totalPages) \<and>
          mset ordered = mset matching \<and>
          sorted_wrt (\<lambda>a b. reservation_date a < reservation_date b \<or>
                             (reservation_date a = reservation_date b \<and>
                              slot_start_time a \<le> slot_start_time b)) ordered \<and>
          length (take (nat limit) (drop (nat ((page - 1) * limit)) ordered)) \<le> nat limit \<and>
          total \<le> totalPages * limit \<and> (totalPages - 1) * limit < total"
    unfolding Let_def pg(1) lm(1)
    apply (intro conjI)
            apply (rule pg(2))
           apply (rule lm(2))
          apply (rule lm(3))
         apply (rule list_valid[OF s, of cfg db, unfolded wh])
        apply (rule mset_sort)
       apply (rule sorted_by_date_then_start)
      apply simp
     apply (rule Math_ceil_div_bounds[OF pos, THEN conjunct1])
    apply (rule Math_ceil_div_bounds[OF pos, THEN conjunct2])
    done
qed

lemma schema_query0:
  "queryReservationsSchema (query0\<lparr>query_page := pg, query_limit := lm\<rparr>) =
     (case with_default 1 (\<lambda>n. 1 \<le> n) pg of
        None \<Rightarrow> Inl [''page'']
      | Some p \<Rightarrow>
          (case with_default 20 (\<lambda>n. 1 \<le> n \<and> n \<le> 50) lm of
             None \<Rightarrow> Inl [''limit'']
           | Some l \<Rightarrow> Inr \<lparr>lv_date = None, lv_table_id = None, lv_status = None,
                              lv_page = p, lv_limit = l\<rparr>))"
  by (simp add: queryReservationsSchema_def query0_def optional_def failed_def Let_def
      split: option.splits)

theorem list_reservations_page_witness:
  "queryReservationsSchema query0 =
     Inr \<lparr>lv_date = None, lv_table_id = None, lv_status = None, lv_page = 1, lv_limit = 20\<rparr> \<and>
   list_reservations cfg0 query0 db3 =
     (200, Reservation_page [rows db3 ! 1, rows db3 ! 0] 2 1 1) \<and>
   list_reservations cfg0 (query0\<lparr>query_page := Value 2, query_limit := Value 1\<rparr>) db3 =
     (200, Reservation_page [rows db3 ! 0] 2 2 2) \<and>
   fst (list_reservations cfg0 (query0\<lparr>query_page := Value 0\<rparr>) db3) = 400 \<and>
   fst (list_reservations cfg0 (query0\<lparr>query_limit := Value 51\<rparr>) db3) = 400"
proof -
  have s0: "queryReservationsSchema query0 =
     Inr \<lparr>lv_date = None, lv_table_id = None, lv_status = None, lv_page = 1, lv_limit = 20\<rparr>"
    using schema_query0[of Missing Missing] by (simp add: with_default_def query0_def)
  have s1: "queryReservationsSchema (query0\<lparr>query_page := Value 2, query_limit := Value 1\<rparr>) =
     Inr \<lparr>lv_date = None, lv_table_id = None, lv_status = None, lv_page = 2, lv_limit = 1\<rparr>"
    by (simp add: schema_query0 with_default_def)
  note t = list_reservations_page[THEN conjunct2, THEN conjunct2, rule_format, unfolded Let_def,
      THEN conjunct2, THEN conjunct2, THEN conjunct2, THEN conjunct1]
  have 1: "list_reservations cfg0 query0 db3 =
     (200, Reservation_page [rows db3 ! 1, rows db3 ! 0] 2 1 1)"
    using t[OF s0, of cfg0 db3]
    by (simp add: query0_def db3_def row0_def Math_ceil_div_eq less_eq_char_def less_char_def)
  have 2: "list_reservations cfg0 (query0\<lparr>query_page := Value 2, query_limit := Value 1\<rparr>) db3 =
     (200, Reservation_page [rows db3 ! 0] 2 2 2)"
    using t[OF s1, of cfg0 db3]
    by (simp add: query0_def db3_def row0_def Math_ceil_div_eq less_eq_char_def less_char_def)
  have 3: "fst (list_reservations cfg0 (query0\<lparr>query_page := Value 0\<rparr>) db3) = 400"
    using list_reservations_page[THEN conjunct1, rule_format,
        of "query0\<lparr>query_page := Value 0\<rparr>" 0 cfg0 db3]
    by simp
  have 4: "fst (list_reservations cfg0 (query0\<lparr>query_limit := Value 51\<rparr>) db3) = 400"
    using list_reservations_page[THEN conjunct2, THEN conjunct1, rule_format,
        of "query0\<lparr>query_limit := Value 51\<rparr>" 51 cfg0 db3]
    by simp
  show ?thesis using s0 1 2 3 4 by blast
qed

subsection \<open>The store invariant\<close>

lemma exec_append: "exec cfg (as @ bs) db = exec cfg bs (exec cfg as db)"
  by (induction as arbitrary: db) simp_all

lemma lifecycle_step_refl: "lifecycle_step r r"
  by (simp add: lifecycle_step_def)

lemma lifecycle_step_trans:
  assumes "lifecycle_step a b" "lifecycle_step b c"
  shows "lifecycle_step a c"
proof -
  from assms have ab: "b\<lparr>status := status a, updated_at := updated_at a\<rparr> = a"
    and bc: "c\<lparr>status := status b, updated_at := updated_at b\<rparr> = b"
    by (simp_all add: lifecycle_step_def)
  have "c\<lparr>status := status a, updated_at := updated_at a\<rparr> =
        (c\<lparr>status := status b, updated_at := updated_at b\<rparr>)\<lparr>status := status a, updated_at := updated_at a\<rparr>"
    by simp
  also have "\<dots> = a" unfolding bc by (rule ab)
  finally have 1: "c\<lparr>status := status a, updated_at := updated_at a\<rparr> = a" .
  from assms have "status b = status a \<or> (status a = ''confirmed'' \<and> status b = ''cancelled'')"
    "status c = status b \<or> (status b = ''confirmed'' \<and> status c = ''cancelled'')"
    by (simp_all add: lifecycle_step_def)
  then have "status c = status a \<or> (status a = ''confirmed'' \<and> status c = ''cancelled'')"
    by auto
  with 1 show ?thesis by (simp add: lifecycle_step_def)
qed

lemma lifecycle_step_fields:
  assumes "lifecycle_step r r'"
  shows "id_pk r' = id_pk r" "table_id r' = table_id r" "reservation_date r' = reservation_date r"
    "slot_start_time r' = slot_start_time r" "slot_end_time r' = slot_end_time r"
    "guest_count r' = guest_count r" "created_at r' = created_at r"
proof -
  from assms have e: "r'\<lparr>status := status r, updated_at := updated_at r\<rparr> = r"
    by (simp add: lifecycle_step_def)
  show "id_pk r' = id_pk r" using arg_cong[OF e, of id_pk] by simp
  show "table_id r' = table_id r" using arg_cong[OF e, of table_id] by simp
  show "reservation_date r' = reservation_date r" using arg_cong[OF e, of reservation_date] by simp
  show "slot_start_time r' = slot_start_time r" using arg_cong[OF e, of slot_start_time] by simp
  show "slot_end_time r' = slot_end_time r" using arg_cong[OF e, of slot_end_time] by simp
  show "guest_count r' = guest_count r" using arg_cong[OF e, of guest_count] by simp
  show "created_at r' = created_at r" using arg_cong[OF e, of created_at] by simp
qed

lemma evolves_refl: "evolves db db"
  by (simp add: evolves_def lifecycle_step_refl)

lemma evolves_trans:
  assumes "evolves a b" "evolves b c"
  shows "evolves a c"
proof -
  have l: "length (rows a) \<le> length (rows b)" "length (rows b) \<le> length (rows c)"
    using assms by (simp_all add: evolves_def)
  have "lifecycle_step (rows a ! k) (rows c ! k)" if "k < length (rows a)" for k
  proof -
    have "lifecycle_step (rows a ! k) (rows b ! k)" using assms(1) that by (simp add: evolves_def)
    moreover have "lifecycle_step (rows b ! k) (rows c ! k)"
      using assms(2) that l(1) by (simp add: evolves_def)
    ultimately show ?thesis by (rule lifecycle_step_trans)
  qed
  then show ?thesis using l by (simp add: evolves_def)
qed

lemma store_inv_init: "store_inv init_store"
  by (simp add: store_inv_def init_store_def)

lemma create_schema_pattern:
  assumes "createReservationSchema email t body = Inr v"
  shows "slot_time_pattern (v_slot_start_time v)"
proof -
  from assms obtain s where s: "required slot_time_pattern (body_slot_start_time body) = Some s"
    and v: "v_slot_start_time v = s"
    by (auto simp: createReservationSchema_def Let_def bind_eq_Some_conv split: option.splits)
  from s have "slot_time_pattern s"
    by (auto simp: required_def split: field.splits if_splits)
  with v show ?thesis by simp
qed

lemma evolves_append: "evolves db \<lparr>rows = rows db @ [n], next_id = k\<rparr>"
  by (simp add: evolves_def nth_append lifecycle_step_refl)

lemma store_inv_append:
  assumes inv: "store_inv db" and n: "id_pk n = next_id db" "status n = ''confirmed''"
    "slot_time_pattern (slot_start_time n)"
    and free: "\<not> (\<exists>r\<in>set (rows db). same_slot r n \<and> status r = ''confirmed'')"
  shows "store_inv \<lparr>rows = rows db @ [n], next_id = next_id db + 1\<rparr>"
proof -
  from inv have a: "\<forall>r\<in>set (rows db). id_pk r < next_id db \<and>
        (status r = ''confirmed'' \<or> status r = ''cancelled'') \<and>
        slot_time_pattern (slot_start_time r)"
    and d: "distinct (map id_pk (rows db))"
    and u: "\<forall>i<length (rows db). \<forall>j<length (rows db).
        same_slot (rows db ! i) (rows db ! j) \<and> status (rows db ! i) = ''confirmed'' \<and>
        status (rows db ! j) = ''confirmed'' \<longrightarrow> i = j"
    by (simp_all add: store_inv_def)
  have a': "\<forall>r\<in>set (rows db @ [n]). id_pk r < next_id db + 1 \<and>
        (status r = ''confirmed'' \<or> status r = ''cancelled'') \<and>
        slot_time_pattern (slot_start_time r)"
    using a n by auto
  have "next_id db \<notin> set (map id_pk (rows db))" using a by auto
  then have d': "distinct (map id_pk (rows db @ [n]))" using d n(1) by simp
  have sym: "same_slot x y \<Longrightarrow> same_slot y x" for x y by (simp add: same_slot_def)
  have u': "i = j"
    if ij: "i < length (rows db @ [n])" "j < length (rows db @ [n])"
      and s: "same_slot ((rows db @ [n]) ! i) ((rows db @ [n]) ! j)"
             "status ((rows db @ [n]) ! i) = ''confirmed''"
             "status ((rows db @ [n]) ! j) = ''confirmed''" for i j
  proof (cases "i < length (rows db)")
    case i: True
    show ?thesis
    proof (cases "j < length (rows db)")
      case True
      then show ?thesis using u i s by (simp add: nth_append)
    next
      case False
      then have "j = length (rows db)" using ij(2) by simp
      then have "same_slot (rows db ! i) n" "status (rows db ! i) = ''confirmed''"
        using s i by (simp_all add: nth_append)
      moreover have "rows db ! i \<in> set (rows db)" using i by simp
      ultimately show ?thesis using free by blast
    qed
  next
    case False
    then have i: "i = length (rows db)" using ij(1) by simp
    show ?thesis
    proof (cases "j < length (rows db)")
      case True
      then have "same_slot n (rows db ! j)" "status (rows db ! j) = ''confirmed''"
        using s i by (simp_all add: nth_append)
      moreover have "rows db ! j \<in> set (rows db)" using True by simp
      ultimately show ?thesis using free sym by blast
    next
      case False
      then show ?thesis using ij(2) i by simp
    qed
  qed
  show ?thesis
    unfolding store_inv_def store.simps
    using a' d' u' by blast
qed

lemma lifecycle_step_cancel:
  assumes "status x = ''confirmed'' \<or> status x = ''cancelled''"
  shows "lifecycle_step x (x\<lparr>status := ''cancelled'', updated_at := t\<rparr>)"
proof -
  have "(x\<lparr>status := ''cancelled'', updated_at := t\<rparr>)\<lparr>status := status x, updated_at := updated_at x\<rparr> = x"
    by simp
  moreover have "status (x\<lparr>status := ''cancelled'', updated_at := t\<rparr>) = ''cancelled''" by simp
  ultimately show ?thesis unfolding lifecycle_step_def using assms by metis
qed

lemma store_inv_cancel:
  assumes inv: "store_inv db"
  shows "store_inv (db\<lparr>rows := map (\<lambda>x. if id_pk x = i then x\<lparr>status := ''cancelled'', updated_at := t\<rparr>
                                     else x) (rows db)\<rparr>)"
    and "evolves db (db\<lparr>rows := map (\<lambda>x. if id_pk x = i then x\<lparr>status := ''cancelled'', updated_at := t\<rparr>
                                     else x) (rows db)\<rparr>)"
proof -
  let ?f = "\<lambda>x. if id_pk x = i then x\<lparr>status := ''cancelled'', updated_at := t\<rparr> else x"
  from inv have a: "\<forall>r\<in>set (rows db). id_pk r < next_id db \<and>
        (status r = ''confirmed'' \<or> status r = ''cancelled'') \<and>
        slot_time_pattern (slot_start_time r)"
    and d: "distinct (map id_pk (rows db))"
    and u: "\<forall>i<length (rows db). \<forall>j<length (rows db).
        same_slot (rows db ! i) (rows db ! j) \<and> status (rows db ! i) = ''confirmed'' \<and>
        status (rows db ! j) = ''confirmed'' \<longrightarrow> i = j"
    by (simp_all add: store_inv_def)
  have f: "id_pk (?f x) = id_pk x" "slot_start_time (?f x) = slot_start_time x"
    "status (?f x) = ''confirmed'' \<Longrightarrow> status x = ''confirmed''"
    "same_slot (?f x) (?f y) = same_slot x y" for x y
    by (simp_all add: same_slot_def split: if_splits)
  have st: "status x = ''confirmed'' \<or> status x = ''cancelled'' \<Longrightarrow>
            status (?f x) = ''confirmed'' \<or> status (?f x) = ''cancelled''" for x
    by simp
  have a': "\<forall>r\<in>set (map ?f (rows db)). id_pk r < next_id db \<and>
        (status r = ''confirmed'' \<or> status r = ''cancelled'') \<and>
        slot_time_pattern (slot_start_time r)"
  proof
    fix r assume "r \<in> set (map ?f (rows db))"
    then obtain x where x: "x \<in> set (rows db)" "r = ?f x" by auto
    from a x(1) have ax: "id_pk x < next_id db" "status x = ''confirmed'' \<or> status x = ''cancelled''"
      "slot_time_pattern (slot_start_time x)" by blast+
    have "id_pk (?f x) < next_id db" using ax(1) by (simp only: f(1))
    moreover have "status (?f x) = ''confirmed'' \<or> status (?f x) = ''cancelled''"
      using ax(2) by (rule st)
    moreover have "slot_time_pattern (slot_start_time (?f x))" using ax(3) by (simp only: f(2))
    ultimately show "id_pk r < next_id db \<and> (status r = ''confirmed'' \<or> status r = ''cancelled'') \<and>
        slot_time_pattern (slot_start_time r)"
      unfolding x(2) by blast
  qed
  have m: "map id_pk (map ?f (rows db)) = map id_pk (rows db)"
    by (simp add: comp_def)
  have d': "distinct (map id_pk (map ?f (rows db)))" unfolding m by (rule d)
  have u': "\<forall>k<length (map ?f (rows db)). \<forall>j<length (map ?f (rows db)).
        same_slot (map ?f (rows db) ! k) (map ?f (rows db) ! j) \<and>
        status (map ?f (rows db) ! k) = ''confirmed'' \<and>
        status (map ?f (rows db) ! j) = ''confirmed'' \<longrightarrow> k = j"
  proof (intro allI impI, elim conjE)
    fix k j
    assume kj': "k < length (map ?f (rows db))" "j < length (map ?f (rows db))"
      and s: "same_slot (map ?f (rows db) ! k) (map ?f (rows db) ! j)"
      and c: "status (map ?f (rows db) ! k) = ''confirmed''"
             "status (map ?f (rows db) ! j) = ''confirmed''"
    have kj: "k < length (rows db)" "j < length (rows db)" using kj' by simp_all
    have n: "map ?f (rows db) ! k = ?f (rows db ! k)" "map ?f (rows db) ! j = ?f (rows db ! j)"
      using kj by (simp_all only: nth_map)
    have "same_slot (rows db ! k) (rows db ! j)" using s unfolding n by (simp only: f(4))
    moreover have "status (rows db ! k) = ''confirmed''" using c(1) unfolding n(1) by (rule f(3))
    moreover have "status (rows db ! j) = ''confirmed''" using c(2) unfolding n(2) by (rule f(3))
    ultimately show "k = j" using u kj by blast
  qed
  have r: "rows (db\<lparr>rows := map ?f (rows db)\<rparr>) = map ?f (rows db)"
    "next_id (db\<lparr>rows := map ?f (rows db)\<rparr>) = next_id db"
    by simp_all
  show "store_inv (db\<lparr>rows := map ?f (rows db)\<rparr>)"
    unfolding store_inv_def r by (intro conjI a' d' u')
  have "lifecycle_step (rows db ! k) (map ?f (rows db) ! k)" if "k < length (rows db)" for k
  proof -
    have "rows db ! k \<in> set (rows db)" using that by simp
    then have "status (rows db ! k) = ''confirmed'' \<or> status (rows db ! k) = ''cancelled''"
      using a by blast
    then have "lifecycle_step (rows db ! k) (?f (rows db ! k))"
      using lifecycle_step_cancel lifecycle_step_refl by presburger
    then show ?thesis using that by (simp only: nth_map)
  qed
  then have "\<forall>k<length (rows db). lifecycle_step (rows db ! k) (map ?f (rows db) ! k)" by blast
  then show "evolves db (db\<lparr>rows := map ?f (rows db)\<rparr>)"
    unfolding evolves_def r by simp
qed

lemma Reservation_create_result:
  "Reservation_create cfg t v e st db =
     (\<lparr>id_pk = next_id db, table_id = v_table_id v, customer_name = v_customer_name v,
       customer_email = v_customer_email v, customer_phone = v_customer_phone v,
       guest_count = v_guest_count v,
       reservation_date = DATEONLY cfg (v_reservation_date v),
       slot_start_time = v_slot_start_time v, slot_end_time = e, status = st,
       special_requests = v_special_requests v, created_at = t, updated_at = t\<rparr>,
      \<lparr>rows = rows db @
              [\<lparr>id_pk = next_id db, table_id = v_table_id v, customer_name = v_customer_name v,
                customer_email = v_customer_email v, customer_phone = v_customer_phone v,
                guest_count = v_guest_count v,
                reservation_date = DATEONLY cfg (v_reservation_date v),
                slot_start_time = v_slot_start_time v, slot_end_time = e, status = st,
                special_requests = v_special_requests v, created_at = t, updated_at = t\<rparr>],
       next_id = next_id db + 1\<rparr>)"
  by (simp add: Reservation_create_def Let_def)

lemma create_step:
  assumes inv: "store_inv db"
  shows "store_inv (snd (create_reservation cfg e body db)) \<and>
         evolves db (snd (create_reservation cfg e body db))"
proof (cases rule: create_cases[of cfg e body db])
  case (invalid errors)
  then show ?thesis using inv evolves_refl by simp
next
  case (rejected m)
  then show ?thesis using inv evolves_refl by simp
next
  case (conflict v m)
  then show ?thesis using inv evolves_refl by simp
next
  case (created v)
  let ?n = "\<lparr>id_pk = next_id db, table_id = v_table_id v, customer_name = v_customer_name v,
       customer_email = v_customer_email v, customer_phone = v_customer_phone v,
       guest_count = v_guest_count v,
       reservation_date = DATEONLY cfg (v_reservation_date v),
       slot_start_time = v_slot_start_time v,
       slot_end_time = calculateEndTime (v_slot_start_time v), status = ''confirmed'',
       special_requests = v_special_requests v, created_at = now e, updated_at = now e\<rparr>"
  have db': "snd (create_reservation cfg e body db) =
      \<lparr>rows = rows db @ [?n], next_id = next_id db + 1\<rparr>"
    unfolding created(2) Reservation_create_result by simp
  have free: "\<not> (\<exists>r\<in>set (rows db). same_slot r ?n \<and> status r = ''confirmed'')"
    using created(3) by (simp add: same_slot_def)
  have "store_inv \<lparr>rows = rows db @ [?n], next_id = next_id db + 1\<rparr>"
    by (rule store_inv_append[OF inv _ _ _ free])
      (simp_all add: create_schema_pattern[OF created(1)])
  then show ?thesis unfolding db' using evolves_append by blast
qed

lemma cancel_step:
  assumes inv: "store_inv db"
  shows "store_inv (snd (cancel_reservation cfg e i db)) \<and>
         evolves db (snd (cancel_reservation cfg e i db))"
proof (cases rule: cancel_cases[of db i cfg e])
  case not_found
  then show ?thesis using inv evolves_refl by simp
next
  case (rejected r m)
  then show ?thesis using inv evolves_refl by simp
next
  case (cancelled r)
  show ?thesis unfolding cancelled(3) snd_conv
    using store_inv_cancel[OF inv, of i "now e"] by blast
qed

lemma handle_step:
  assumes "store_inv db"
  shows "store_inv (snd (handle cfg req db)) \<and> evolves db (snd (handle cfg req db))"
proof (cases req)
  case (Create e body)
  then show ?thesis using create_step[OF assms] by (simp add: handle_def)
next
  case (List_all q)
  then show ?thesis using assms evolves_refl by (simp add: handle_def)
next
  case (Get e i)
  then show ?thesis using assms evolves_refl by (simp add: handle_def)
next
  case (Cancel e i)
  then show ?thesis using cancel_step[OF assms] by (simp add: handle_def)
next
  case (Check_availability t d)
  then show ?thesis using assms evolves_refl by (simp add: handle_def)
qed

lemma exec_step:
  "store_inv db \<Longrightarrow> store_inv (exec cfg reqs db) \<and> evolves db (exec cfg reqs db)"
proof (induction reqs arbitrary: db)
  case Nil
  then show ?case using evolves_refl by simp
next
  case (Cons req reqs)
  from handle_step[OF Cons.prems] have h: "store_inv (snd (handle cfg req db))"
    "evolves db (snd (handle cfg req db))" by blast+
  from Cons.IH[OF h(1)] have "store_inv (exec cfg reqs (snd (handle cfg req db)))"
    "evolves (snd (handle cfg req db)) (exec cfg reqs (snd (handle cfg req db)))" by blast+
  then show ?case using h(2) evolves_trans by auto
qed

lemma reachable_inv: "store_inv (exec cfg reqs init_store)"
  using exec_step[OF store_inv_init] by blast

subsection \<open>The life cycle of a reservation\<close>

text \<open>
  Claim C6.  In every store the service reaches from the empty one, each status is
  \<open>confirmed\<close> or \<open>cancelled\<close>.  Whatever requests follow, every row stays in the store
  at its place (no row is deleted), with every column but the status and the update
  timestamp as it was, and its status is either what it was or has gone from \<open>confirmed\<close>
  to \<open>cancelled\<close>: a cancelled row is never confirmed again.
\<close>

theorem status_lifecycle:
  "let db = exec cfg reqs init_store; db' = exec cfg reqs' db in
     (\<forall>r\<in>set (rows db). status r = ''confirmed'' \<or> status r = ''cancelled'') \<and>
     length (rows db) \<le> length (rows db') \<and>
     (\<forall>k<length (rows db).
        (rows db' ! k)\<lparr>status := status (rows db ! k),
                        updated_at := updated_at (rows db ! k)\<rparr> = rows db ! k \<and>
        (status (rows db' ! k) = status (rows db ! k) \<or>
         (status (rows db ! k) = ''confirmed'' \<and> status (rows db' ! k) = ''cancelled'')))"
proof -
  have i: "store_inv (exec cfg reqs init_store)" by (rule reachable_inv)
  have e: "evolves (exec cfg reqs init_store) (exec cfg reqs' (exec cfg reqs init_store))"
    using exec_step[OF i] by blast
  show ?thesis
    using i e unfolding Let_def store_inv_def evolves_def lifecycle_step_def by blast
qed

lemma exec_create_row0: "exec cfg0 [Create (env_at now0) body0] init_store = db1"
  by (simp add: handle_def create_body0_init)

lemma exec_cancel_row0:
  "exec cfg0 [Cancel (env_at now0) 1] db1 =
     \<lparr>rows = [row0\<lparr>status := ''cancelled'', updated_at := now0\<rparr>], next_id = 2\<rparr>"
proof -
  have "cancel_reservation cfg0 (env_at now0) 1 db1 =
     ((200, Message_reservation ''Reservation cancelled successfully''
              (row0\<lparr>status := ''cancelled'', updated_at := now (env_at now0)\<rparr>)),
      db1\<lparr>rows := map (\<lambda>x. if id_pk x = 1 then x\<lparr>status := ''cancelled'', updated_at := now (env_at now0)\<rparr>
                             else x) (rows db1)\<rparr>)"
    by (rule cancel_success[OF findByPk_db1])
      (simp_all add: row0_def Date_local_row0[unfolded row0_def, simplified] now_env_at now0_def)
  then show ?thesis by (simp add: handle_def now_env_at db1_def row0_def)
qed

theorem status_lifecycle_witness:
  "exec cfg0 [Create (env_at now0) body0] init_store = db1 \<and>
   rows db1 = [row0] \<and> status row0 = ''confirmed'' \<and>
   exec cfg0 [Cancel (env_at now0) 1] (exec cfg0 [Create (env_at now0) body0] init_store) =
     \<lparr>rows = [row0\<lparr>status := ''cancelled'', updated_at := now0\<rparr>], next_id = 2\<rparr> \<and>
   (row0\<lparr>status := ''cancelled'', updated_at := now0\<rparr>)\<lparr>status := status row0,
       updated_at := updated_at row0\<rparr> = row0 \<and>
   length (rows (exec cfg0 [Create (env_at now0) body0] init_store)) = 1"
proof -
  note t = status_lifecycle[of cfg0 "[Create (env_at now0) body0]" "[Cancel (env_at now0) 1]",
      unfolded Let_def exec_create_row0 exec_cancel_row0, THEN conjunct2, THEN conjunct2,
      rule_format, of 0]
  have r: "rows db1 = [row0]" by (simp add: db1_def)
  have "(row0\<lparr>status := ''cancelled'', updated_at := now0\<rparr>)\<lparr>status := status row0,
       updated_at := updated_at row0\<rparr> = row0"
    using t by (simp add: r)
  then show ?thesis
    using exec_create_row0 exec_cancel_row0 r by (simp add: row0_def)
qed

subsection \<open>No double booking\<close>

lemma distinct_id_unique:
  assumes "distinct (map id_pk xs)" "x \<in> set xs" "y \<in> set xs" "id_pk x = id_pk y"
  shows "x = y"
proof -
  from assms(1) have "inj_on id_pk (set xs)" by (simp add: distinct_map)
  then show ?thesis using assms(4,2,3) by (rule inj_onD)
qed

lemma created_row_conflicts:
  assumes s1: "createReservationSchema (isEmail cfg) (now e1) b1 = Inr v1"
    and first: "create_reservation cfg e1 b1 (exec cfg reqs init_store) =
                  ((201, Message_reservation m r), dbA)"
    and still: "findByPk (exec cfg reqs' dbA) (id_pk r) = Some x" "status x = ''confirmed''"
  shows "x \<in> set (rows (exec cfg reqs' dbA)) \<and> table_id x = v_table_id v1 \<and>
         reservation_date x = DATEONLY cfg (v_reservation_date v1) \<and>
         slot_start_time x = v_slot_start_time v1"
proof -
  let ?db0 = "exec cfg reqs init_store"
  let ?dbB = "exec cfg reqs' dbA"
  have inv0: "store_inv ?db0" by (rule reachable_inv)
  have invA: "store_inv dbA" using create_step[OF inv0, of cfg e1 b1] first by simp
  have invB: "store_inv ?dbB" and ev: "evolves dbA ?dbB" using exec_step[OF invA] by blast+
  have r: "dbA = \<lparr>rows = rows ?db0 @ [r], next_id = next_id ?db0 + 1\<rparr> \<and>
           table_id r = v_table_id v1 \<and>
           reservation_date r = DATEONLY cfg (v_reservation_date v1) \<and>
           slot_start_time r = v_slot_start_time v1"
  proof (cases rule: create_cases[of cfg e1 b1 ?db0])
    case (invalid errors)
    then show ?thesis using first by simp
  next
    case (rejected m)
    then show ?thesis using first by simp
  next
    case (conflict v m)
    then show ?thesis using first by simp
  next
    case (created v)
    have v: "v = v1" using created(1) s1 by simp
    from created(2) first show ?thesis
      unfolding v Reservation_create_result by auto
  qed
  let ?k = "length (rows ?db0)"
  have rows_dbA: "rows dbA = rows ?db0 @ [r]" using r by simp
  have k: "?k < length (rows dbA)" "rows dbA ! ?k = r" unfolding rows_dbA by simp_all
  from ev k(1) have kB: "?k < length (rows ?dbB)"
    and l: "lifecycle_step (rows dbA ! ?k) (rows ?dbB ! ?k)"
    by (auto simp: evolves_def)
  let ?y = "rows ?dbB ! ?k"
  note f = lifecycle_step_fields[OF l[unfolded k(2)]]
  have y: "?y \<in> set (rows ?dbB)" using kB by simp
  have x: "x \<in> set (rows ?dbB)" "id_pk x = id_pk r" using findByPk_Some[OF still(1)] by simp_all
  have d: "distinct (map id_pk (rows ?dbB))" using invB by (simp add: store_inv_def)
  have "x = ?y" by (rule distinct_id_unique[OF d x(1) y]) (simp add: x(2) f(1))
  then show ?thesis using x(1) f(2,3,4) r by simp
qed

text \<open>
  Claim C1.  Requests are handled one after the other, starting from the empty store.  Let
  a create request pass the schema and be answered 201 with a new reservation, let any
  requests follow, and let the row with that reservation's id still be \<open>confirmed\<close>.  Then
  a create request for the same table, date and start time that passes the schema and the
  table checks (table found, active, enough seats) is answered 409 and the store stays as
  it is.  And in every store reached, no two rows are \<open>confirmed\<close> for the same table,
  date and start time.
\<close>

theorem no_double_booking:
  assumes "createReservationSchema (isEmail cfg) (now e1) b1 = Inr v1"
    and "createReservationSchema (isEmail cfg) (now e2) b2 = Inr v2"
    and "v_table_id v2 = v_table_id v1"
    and "v_reservation_date v2 = v_reservation_date v1"
    and "v_slot_start_time v2 = v_slot_start_time v1"
    and "create_reservation cfg e1 b1 (exec cfg reqs init_store) =
           ((201, Message_reservation m r), dbA)"
    and "findByPk (exec cfg reqs' dbA) (id_pk r) = Some x" and "status x = ''confirmed''"
    and "fetchTableInfo e2 (v_table_id v2) = Some t" and "is_active t"
    and "v_guest_count v2 \<le> seating_capacity t"
  shows "create_reservation cfg e2 b2 (exec cfg reqs' dbA) =
           ((409, Error ''This table is already booked for the requested date and time slot''),
            exec cfg reqs' dbA) \<and>
         (\<forall>reqs''. let db = exec cfg reqs'' init_store in
            \<forall>i<length (rows db). \<forall>j<length (rows db).
              table_id (rows db ! i) = table_id (rows db ! j) \<and>
              reservation_date (rows db ! i) = reservation_date (rows db ! j) \<and>
              slot_start_time (rows db ! i) = slot_start_time (rows db ! j) \<and>
              status (rows db ! i) = ''confirmed'' \<and> status (rows db ! j) = ''confirmed''
              \<longrightarrow> i = j)"
proof
  from created_row_conflicts[OF assms(1,6,7,8)]
  have "\<exists>r\<in>set (rows (exec cfg reqs' dbA)). table_id r = v_table_id v2 \<and>
           reservation_date r = DATEONLY cfg (v_reservation_date v2) \<and>
           slot_start_time r = v_slot_start_time v2 \<and> status r = ''confirmed''"
    unfolding assms(3,4,5) using assms(8) by blast
  then show "create_reservation cfg e2 b2 (exec cfg reqs' dbA) =
           ((409, Error ''This table is already booked for the requested date and time slot''),
            exec cfg reqs' dbA)"
    by (rule create_conflict[OF assms(2,9,10,11)])
next
  show "\<forall>reqs''. let db = exec cfg reqs'' init_store in
            \<forall>i<length (rows db). \<forall>j<length (rows db).
              table_id (rows db ! i) = table_id (rows db ! j) \<and>
              reservation_date (rows db ! i) = reservation_date (rows db ! j) \<and>
              slot_start_time (rows db ! i) = slot_start_time (rows db ! j) \<and>
              status (rows db ! i) = ''confirmed'' \<and> status (rows db ! j) = ''confirmed''
              \<longrightarrow> i = j"
  proof
    fix reqs''
    have "store_inv (exec cfg reqs'' init_store)" by (rule reachable_inv)
    then show "let db = exec cfg reqs'' init_store in
            \<forall>i<length (rows db). \<forall>j<length (rows db).
              table_id (rows db ! i) = table_id (rows db ! j) \<and>
              reservation_date (rows db ! i) = reservation_date (rows db ! j) \<and>
              slot_start_time (rows db ! i) = slot_start_time (rows db ! j) \<and>
              status (rows db ! i) = ''confirmed'' \<and> status (rows db ! j) = ''confirmed''
              \<longrightarrow> i = j"
      unfolding Let_def store_inv_def same_slot_def by blast
  qed
qed

theorem no_double_booking_witness:
  "createReservationSchema (isEmail cfg0) (now (env_at now0)) body0 =
     Inr \<lparr>v_table_id = 1, v_customer_name = ''John Doe'',
          v_customer_email = ''john@example.com'', v_customer_phone = ''+1234567890'',
          v_guest_count = 3, v_reservation_date = 1798156800000,
          v_slot_start_time = ''18:00'', v_special_requests = Some ''Window seat''\<rparr> \<and>
   create_reservation cfg0 (env_at now0) body0 (exec cfg0 [] init_store) =
     ((201, Message_reservation ''Reservation created successfully'' row0), db1) \<and>
   findByPk (exec cfg0 [List_all query0] db1) (id_pk row0) = Some row0 \<and>
   status row0 = ''confirmed'' \<and>
   fetchTableInfo (env_at (now0 + 60000)) 1 = Some table4 \<and> is_active table4 \<and>
   seating_capacity table4 = 4 \<and>
   create_reservation cfg0 (env_at (now0 + 60000)) body0 (exec cfg0 [List_all query0] db1) =
     ((409, Error ''This table is already booked for the requested date and time slot''),
      exec cfg0 [List_all query0] db1)"
proof -
  let ?v = "\<lparr>v_table_id = 1, v_customer_name = ''John Doe'',
          v_customer_email = ''john@example.com'', v_customer_phone = ''+1234567890'',
          v_guest_count = 3, v_reservation_date = 1798156800000,
          v_slot_start_time = ''18:00'', v_special_requests = Some ''Window seat''\<rparr>"
  have s1: "createReservationSchema (isEmail cfg0) (now (env_at now0)) body0 = Inr ?v"
    unfolding now_env_at by (rule schema_body0) (simp_all add: now0_def)
  have s2: "createReservationSchema (isEmail cfg0) (now (env_at (now0 + 60000))) body0 = Inr ?v"
    unfolding now_env_at by (rule schema_body0) (simp_all add: now0_def)
  have c: "create_reservation cfg0 (env_at now0) body0 (exec cfg0 [] init_store) =
     ((201, Message_reservation ''Reservation created successfully'' row0), db1)"
    by (simp add: create_body0_init)
  have e: "exec cfg0 [List_all query0] db1 = db1" by (simp add: handle_def)
  have f: "findByPk (exec cfg0 [List_all query0] db1) (id_pk row0) = Some row0"
    unfolding e using findByPk_db1 by (simp add: row0_def)
  have st: "status row0 = ''confirmed''" by (simp add: row0_def)
  have t: "fetchTableInfo (env_at (now0 + 60000)) (v_table_id ?v) = Some table4"
    by (simp add: fetch_env_at)
  have a: "is_active table4" "v_guest_count ?v \<le> seating_capacity table4"
    "seating_capacity table4 = 4"
    by (simp_all add: table4_def)
  note w = no_double_booking[OF s1 s2 refl refl refl c f st t a(1,2), THEN conjunct1]
  show ?thesis using s1 c f st t a w by simp
qed

end
